theory Spec2Isabelle
  imports Main "HOL-Library.AList" "HOL-Library.Sublist"
begin

section \<open>Data model\<close>

text \<open>
  The configuration file is a JSON object. JSON values that the code only stores, compares
  or tests for truthiness are kept as a datatype; numbers are integers (the threshold is
  parsed with \<^verbatim>\<open>type=int\<close>), floating-point numbers are not modelled.
  A JSON object is an association list in insertion order with distinct keys, as Python's
  \<^verbatim>\<open>dict\<close> is.
\<close>

datatype json =
    JNull
  | JBool bool
  | JNum int
  | JStr string
  | JArr "json list"
  | JObj "(string \<times> json) list"

type_synonym router_config = "(string \<times> json) list"

text \<open>
  A provider record as section 6 of the specification and \<^verbatim>\<open>cli.add_provider\<close> have it:
  \<^verbatim>\<open>name\<close> and \<^verbatim>\<open>api_base_url\<close> are strings, \<^verbatim>\<open>api_key\<close> may be absent, and
  \<^verbatim>\<open>models\<close> is read with \<^verbatim>\<open>provider.get("models", [])\<close>, so it may be absent too.
  Keys the code never reads are carried along unchanged.
\<close>

record provider =
  name :: string
  api_base_url :: string
  api_key :: "string option"
  models :: "string list option"
  provider_extra :: "(string \<times> json) list"

text \<open>
  The document: the two sections the code reads with \<^verbatim>\<open>config.get("Router", {})\<close> and
  \<^verbatim>\<open>config.get("Providers", [])\<close> (\<open>None\<close> is an absent key), and every other
  top-level key.
\<close>

record document =
  Router :: "router_config option"
  Providers :: "provider list option"
  document_extra :: "(string \<times> json) list"

text \<open>
  The file system as far as \<^verbatim>\<open>ConfigManager\<close> sees it: the parsed content of the file at
  \<^verbatim>\<open>config_path\<close> (\<open>None\<close> when the file does not exist) and the log of every document
  that \<^verbatim>\<open>save_config\<close> wrote, oldest first.
\<close>

record store =
  content :: "document option"
  saved :: "document list"

text \<open>
  Exceptions and \<^verbatim>\<open>sys.exit(1)\<close> paths. \<open>DuplicateProvider\<close>, \<open>ProviderNotFound\<close> and
  \<open>ModelNotFound\<close> are the three \<^verbatim>\<open>ValueError\<close>s of \<^verbatim>\<open>ConfigManager\<close>; the others are the
  error exits of the command layer and the Python run-time errors that the modelled code
  can raise.
\<close>

datatype error =
    FileNotFoundError
  | DuplicateProvider
  | ProviderNotFound
  | ModelNotFound
  | ModelNotInProvider
  | AmbiguousModelReference
  | InvalidRouterType
  | PreconditionFailed
  | TypeError
  | KeyError
  | AttributeError

section \<open>ConfigManager\<close>

definition load_config :: "store \<Rightarrow> error + document" where
  "load_config st = (case content st of None \<Rightarrow> Inl FileNotFoundError | Some d \<Rightarrow> Inr d)"

definition save_config :: "document \<Rightarrow> store \<Rightarrow> store" where
  "save_config d st = st\<lparr>content := Some d, saved := saved st @ [d]\<rparr>"

definition router_of :: "document \<Rightarrow> router_config" where
  "router_of d = (case Router d of None \<Rightarrow> [] | Some r \<Rightarrow> r)"

definition providers_of :: "document \<Rightarrow> provider list" where
  "providers_of d = (case Providers d of None \<Rightarrow> [] | Some ps \<Rightarrow> ps)"

definition models_of :: "provider \<Rightarrow> string list" where
  "models_of p = (case models p of None \<Rightarrow> [] | Some ms \<Rightarrow> ms)"

definition get_router_config :: "store \<Rightarrow> error + router_config" where
  "get_router_config st = (case load_config st of Inl e \<Rightarrow> Inl e | Inr d \<Rightarrow> Inr (router_of d))"

definition update_router_config :: "router_config \<Rightarrow> store \<Rightarrow> (error + unit) \<times> store" where
  "update_router_config r st =
     (case load_config st of
        Inl e \<Rightarrow> (Inl e, st)
      | Inr d \<Rightarrow> (Inr (), save_config (d\<lparr>Router := Some r\<rparr>) st))"

definition get_providers :: "store \<Rightarrow> error + provider list" where
  "get_providers st = (case load_config st of Inl e \<Rightarrow> Inl e | Inr d \<Rightarrow> Inr (providers_of d))"

text \<open>The loop of \<^verbatim>\<open>_check_duplicate_provider\<close>: the name is compared first, then the URL.\<close>

fun check_duplicates :: "provider list \<Rightarrow> provider \<Rightarrow> error + unit" where
  "check_duplicates [] new = Inr ()"
| "check_duplicates (p # ps) new =
     (if name p = name new then Inl DuplicateProvider
      else if api_base_url p = api_base_url new then Inl DuplicateProvider
      else check_duplicates ps new)"

definition check_duplicate_provider :: "provider \<Rightarrow> store \<Rightarrow> error + unit" where
  "check_duplicate_provider new st =
     (case get_providers st of Inl e \<Rightarrow> Inl e | Inr ps \<Rightarrow> check_duplicates ps new)"

definition add_provider :: "provider \<Rightarrow> store \<Rightarrow> (error + unit) \<times> store" where
  "add_provider new st =
     (case check_duplicate_provider new st of
        Inl e \<Rightarrow> (Inl e, st)
      | Inr _ \<Rightarrow>
          (case load_config st of
             Inl e \<Rightarrow> (Inl e, st)
           | Inr d \<Rightarrow> (Inr (), save_config (d\<lparr>Providers := Some (providers_of d @ [new])\<rparr>) st)))"

text \<open>
  The older copy of the module, \<^verbatim>\<open>claude-code-router-switcher/config_manager.py\<close>, has
  \<^verbatim>\<open>add_provider\<close> without the call of \<^verbatim>\<open>_check_duplicate_provider\<close>. The package that
  the tests and the command line import is the one modelled above.
\<close>

definition add_provider_unchecked :: "provider \<Rightarrow> store \<Rightarrow> (error + unit) \<times> store" where
  "add_provider_unchecked new st =
     (case load_config st of
        Inl e \<Rightarrow> (Inl e, st)
      | Inr d \<Rightarrow> (Inr (), save_config (d\<lparr>Providers := Some (providers_of d @ [new])\<rparr>) st))"

text \<open>
  The loop of \<^verbatim>\<open>add_model_to_provider\<close> stops at the first provider with the name.
  \<open>None\<close>: the loop ran to its end (the \<^verbatim>\<open>raise\<close> after it); \<open>Some (True, ps')\<close>: the model
  was appended and the document is saved; \<open>Some (False, ps)\<close>: the model was already there,
  the function returns without saving.
\<close>

fun add_model_loop :: "provider list \<Rightarrow> string \<Rightarrow> string \<Rightarrow> (bool \<times> provider list) option" where
  "add_model_loop [] pn m = None"
| "add_model_loop (p # ps) pn m =
     (if name p = pn then
        (if m \<notin> set (models_of p)
         then Some (True, p\<lparr>models := Some (models_of p @ [m])\<rparr> # ps)
         else Some (False, p # ps))
      else map_option (\<lambda>(c, ps'). (c, p # ps')) (add_model_loop ps pn m))"

definition add_model_to_provider :: "string \<Rightarrow> string \<Rightarrow> store \<Rightarrow> (error + unit) \<times> store" where
  "add_model_to_provider pn m st =
     (case load_config st of
        Inl e \<Rightarrow> (Inl e, st)
      | Inr d \<Rightarrow>
          (case add_model_loop (providers_of d) pn m of
             None \<Rightarrow> (Inl ProviderNotFound, st)
           | Some (True, ps') \<Rightarrow> (Inr (), save_config (d\<lparr>Providers := Some ps'\<rparr>) st)
           | Some (False, _) \<Rightarrow> (Inr (), st)))"

text \<open>
  \<^verbatim>\<open>get_all_models\<close> builds a dict by comprehension: a later provider with the same name
  overwrites the value and keeps the position of the first.
\<close>

definition get_all_models :: "store \<Rightarrow> error + (string \<times> string list) list" where
  "get_all_models st =
     (case get_providers st of
        Inl e \<Rightarrow> Inl e
      | Inr ps \<Rightarrow> Inr (foldl (\<lambda>d p. AList.update (name p) (models_of p) d) [] ps))"

definition find_providers_for_model :: "string \<Rightarrow> store \<Rightarrow> error + string list" where
  "find_providers_for_model m st =
     (case get_all_models st of
        Inl e \<Rightarrow> Inl e
      | Inr mbp \<Rightarrow> Inr (map fst (filter (\<lambda>(pn, ms). m \<in> set ms) mbp)))"

definition validate_provider_model :: "string \<Rightarrow> string \<Rightarrow> store \<Rightarrow> error + bool" where
  "validate_provider_model pn m st =
     (case get_all_models st of
        Inl e \<Rightarrow> Inl e
      | Inr mbp \<Rightarrow> Inr (m \<in> set (case map_of mbp pn of None \<Rightarrow> [] | Some ms \<Rightarrow> ms)))"

definition delete_provider :: "string \<Rightarrow> store \<Rightarrow> (error + unit) \<times> store" where
  "delete_provider pn st =
     (case load_config st of
        Inl e \<Rightarrow> (Inl e, st)
      | Inr d \<Rightarrow>
          (let ps = providers_of d;
               ps' = filter (\<lambda>p. name p \<noteq> pn) ps
           in if length ps' = length ps then (Inl ProviderNotFound, st)
              else (Inr (), save_config (d\<lparr>Providers := Some ps'\<rparr>) st)))"

text \<open>
  \<^verbatim>\<open>delete_model\<close>: \<^verbatim>\<open>models.remove(model_name)\<close> removes the first occurrence only.
\<close>

definition remove_model :: "string \<Rightarrow> provider \<Rightarrow> provider" where
  "remove_model m p =
     (if m \<in> set (models_of p) then p\<lparr>models := Some (remove1 m (models_of p))\<rparr> else p)"

definition delete_model :: "string \<Rightarrow> store \<Rightarrow> (error + unit) \<times> store" where
  "delete_model m st =
     (case load_config st of
        Inl e \<Rightarrow> (Inl e, st)
      | Inr d \<Rightarrow>
          (let ps = providers_of d;
               model_found = (\<exists>p \<in> set ps. m \<in> set (models_of p))
           in if \<not> model_found then (Inl ModelNotFound, st)
              else (Inr (), save_config (d\<lparr>Providers := Some (map (remove_model m) ps)\<rparr>) st)))"

section \<open>Python string operations\<close>

text \<open>
  \<^verbatim>\<open>s.endswith(suf)\<close> is \<open>suffix suf s\<close>; \<^verbatim>\<open>s.find(sub)\<close> is the index of the first
  occurrence (\<open>None\<close> for Python's \<open>-1\<close>), and \<^verbatim>\<open>sub in s\<close> is \<open>find_str sub s \<noteq> None\<close>.
\<close>

fun find_str :: "string \<Rightarrow> string \<Rightarrow> nat option" where
  "find_str sub [] = (if sub = [] then Some 0 else None)"
| "find_str sub (c # cs) =
     (if prefix sub (c # cs) then Some 0 else map_option Suc (find_str sub cs))"

definition str_contains :: "string \<Rightarrow> string \<Rightarrow> bool" where
  "str_contains sub s = (find_str sub s \<noteq> None)"

text \<open>\<^verbatim>\<open>s.rstrip('/')\<close> removes every trailing \<open>/\<close>, not only one.\<close>

definition rstrip_char :: "char \<Rightarrow> string \<Rightarrow> string" where
  "rstrip_char c s = rev (dropWhile (\<lambda>x. x = c) (rev s))"

text \<open>
  A Python \<^verbatim>\<open>str\<close> is kept as its UTF-8 encoding, one \<open>char\<close> for each byte. Comparison,
  concatenation, \<^verbatim>\<open>in\<close>, \<^verbatim>\<open>endswith\<close>, \<^verbatim>\<open>find\<close> followed by a slice at the index found,
  and splitting at an ASCII character give the same result on the encoding as on the code
  points. \<^verbatim>\<open>s.strip()\<close> removes the leading and the trailing white space, which for a
  \<^verbatim>\<open>str\<close> is every code point that \<^verbatim>\<open>str.isspace\<close> accepts: U+0009 to U+000D, U+001C to
  U+0020, U+0085, U+00A0, U+1680, U+2000 to U+200A, U+2028, U+2029, U+202F, U+205F and U+3000.
  \<open>space_encodings\<close> lists their encodings. In a well-formed encoding a string starts (ends)
  with one of them exactly when its first (last) code point is that white space.
\<close>

definition space_encodings :: "string list" where
  "space_encodings =
     [[CHR 0x09], [CHR 0x0A], [CHR 0x0B], [CHR 0x0C], [CHR 0x0D],
      [CHR 0x1C], [CHR 0x1D], [CHR 0x1E], [CHR 0x1F], [CHR 0x20],
      [CHR 0xC2, CHR 0x85], [CHR 0xC2, CHR 0xA0], [CHR 0xE1, CHR 0x9A, CHR 0x80],
      [CHR 0xE2, CHR 0x80, CHR 0x80], [CHR 0xE2, CHR 0x80, CHR 0x81],
      [CHR 0xE2, CHR 0x80, CHR 0x82], [CHR 0xE2, CHR 0x80, CHR 0x83],
      [CHR 0xE2, CHR 0x80, CHR 0x84], [CHR 0xE2, CHR 0x80, CHR 0x85],
      [CHR 0xE2, CHR 0x80, CHR 0x86], [CHR 0xE2, CHR 0x80, CHR 0x87],
      [CHR 0xE2, CHR 0x80, CHR 0x88], [CHR 0xE2, CHR 0x80, CHR 0x89],
      [CHR 0xE2, CHR 0x80, CHR 0x8A], [CHR 0xE2, CHR 0x80, CHR 0xA8],
      [CHR 0xE2, CHR 0x80, CHR 0xA9], [CHR 0xE2, CHR 0x80, CHR 0xAF],
      [CHR 0xE2, CHR 0x81, CHR 0x9F], [CHR 0xE3, CHR 0x80, CHR 0x80]]"

text \<open>Removing, as long as there is one, a leading occurrence of one of the given strings.\<close>

function strip_prefixes :: "string list \<Rightarrow> string \<Rightarrow> string" where
  "strip_prefixes encs s =
     (case find (\<lambda>e. e \<noteq> [] \<and> prefix e s) encs of
        None \<Rightarrow> s
      | Some e \<Rightarrow> strip_prefixes encs (drop (length e) s))"
  by pat_completeness auto
termination
proof (relation "measure (\<lambda>(encs, s). length s)")
  show "wf (measure (\<lambda>(encs, s). length s))" by simp
next
  fix encs :: "string list" and s e :: string
  assume "find (\<lambda>e. e \<noteq> [] \<and> prefix e s) encs = Some e"
  then have "e \<noteq> []" and "prefix e s" by (auto simp: find_Some_iff)
  then have "s \<noteq> []" by auto
  with \<open>e \<noteq> []\<close> show "((encs, drop (length e) s), (encs, s)) \<in> measure (\<lambda>(encs, s). length s)"
    by simp
qed

definition strip :: "string \<Rightarrow> string" where
  "strip s = rev (strip_prefixes (map rev space_encodings)
                    (rev (strip_prefixes space_encodings s)))"

text \<open>
  \<^verbatim>\<open>s.split(",", 1)\<close> and \<^verbatim>\<open>s.rsplit(",", 1)\<close> for a string that contains a comma: the parts
  before and after the first, respectively the last, comma.
\<close>

definition split_first :: "char \<Rightarrow> string \<Rightarrow> string \<times> string" where
  "split_first c s = (takeWhile (\<lambda>x. x \<noteq> c) s, drop 1 (dropWhile (\<lambda>x. x \<noteq> c) s))"

definition rsplit_last :: "char \<Rightarrow> string \<Rightarrow> string \<times> string" where
  "rsplit_last c s =
     (rev (drop 1 (dropWhile (\<lambda>x. x \<noteq> c) (rev s))), rev (takeWhile (\<lambda>x. x \<noteq> c) (rev s)))"

section \<open>The HTTP collaborator\<close>

text \<open>
  \<^verbatim>\<open>requests.get(url, headers, timeout)\<close> is a parameter of the model: a function from the
  URL and the bearer token sent (if any) to either a response with its status code and its
  parsed JSON body, or a \<^verbatim>\<open>requests.RequestException\<close>.
\<close>

datatype http_result = Response int json | RequestException

type_synonym http = "string \<Rightarrow> string option \<Rightarrow> http_result"

section \<open>Endpoint validation\<close>

text \<open>
  The two probe targets. \<^verbatim>\<open>validate_provider_endpoint\<close> (as \<^verbatim>\<open>v1_url\<close>, \<^verbatim>\<open>no_v1_url\<close>) and
  \<^verbatim>\<open>fetch_models_from_endpoint\<close> (as \<^verbatim>\<open>urls_to_try\<close>) compute them with the same code.
\<close>

definition candidate_urls :: "string \<Rightarrow> string \<times> string" where
  "candidate_urls base_url =
     (if suffix ''/v1'' base_url
      then (base_url @ ''/models'', take (length base_url - 3) base_url @ ''/models'')
      else (case find_str ''/v1/'' base_url of
              Some v1_index \<Rightarrow>
                (take v1_index base_url @ ''/v1/models'', take v1_index base_url @ ''/models'')
            | None \<Rightarrow> (base_url @ ''/v1/models'', base_url @ ''/models'')))"

definition with_v1 :: "string \<Rightarrow> string" where
  "with_v1 base_url = (if suffix ''/v1'' base_url then base_url else base_url @ ''/v1'')"

definition without_v1 :: "string \<Rightarrow> string" where
  "without_v1 base_url =
     (if suffix ''/v1'' base_url then take (length base_url - 3) base_url else base_url)"

text \<open>
  The second \<^verbatim>\<open>try\<close> block of \<^verbatim>\<open>validate_provider_endpoint\<close>, entered when
  \<^verbatim>\<open>should_try_without_v1\<close> is set. Its \<^verbatim>\<open>elif 400 <= response.status_code < 500\<close> has no
  branch for 404 before it.
\<close>

definition try_without_v1 :: "http \<Rightarrow> string \<Rightarrow> string" where
  "try_without_v1 get base_url =
     (case get (snd (candidate_urls base_url)) None of
        RequestException \<Rightarrow> base_url
      | Response status_code _ \<Rightarrow>
          if 200 \<le> status_code \<and> status_code < 300 then without_v1 base_url
          else if 400 \<le> status_code \<and> status_code < 500 then without_v1 base_url
          else base_url)"

definition validate_provider_endpoint :: "http \<Rightarrow> string \<Rightarrow> string" where
  "validate_provider_endpoint get raw_url =
     (let base_url = rstrip_char (CHR ''/'') raw_url in
      case get (fst (candidate_urls base_url)) None of
        RequestException \<Rightarrow> try_without_v1 get base_url
      | Response status_code _ \<Rightarrow>
          if 200 \<le> status_code \<and> status_code < 300 then with_v1 base_url
          else if status_code = 404 then try_without_v1 get base_url
          else if 400 \<le> status_code \<and> status_code < 500 then with_v1 base_url
          else base_url)"

section \<open>Fetching a model catalog\<close>

text \<open>
  What Python does with the parsed body \<^verbatim>\<open>data\<close>, whatever JSON value it is.
  \<^verbatim>\<open>key in data\<close> is key membership for a dict, element membership for a list, substring
  search for a string, and a \<^verbatim>\<open>TypeError\<close> for a number, a boolean or \<^verbatim>\<open>None\<close>.
\<close>

fun py_contains :: "string \<Rightarrow> json \<Rightarrow> error + bool" where
  "py_contains k (JObj kvs) = Inr (k \<in> set (map fst kvs))"
| "py_contains k (JArr xs) = Inr (JStr k \<in> set xs)"
| "py_contains k (JStr s) = Inr (str_contains k s)"
| "py_contains k JNull = Inl TypeError"
| "py_contains k (JBool b) = Inl TypeError"
| "py_contains k (JNum n) = Inl TypeError"

text \<open>\<^verbatim>\<open>data[key]\<close> with a string key: only a dict can be subscripted by a string.\<close>

fun py_getitem :: "json \<Rightarrow> string \<Rightarrow> error + json" where
  "py_getitem (JObj kvs) k = (case map_of kvs k of None \<Rightarrow> Inl KeyError | Some v \<Rightarrow> Inr v)"
| "py_getitem (JArr xs) k = Inl TypeError"
| "py_getitem (JStr s) k = Inl TypeError"
| "py_getitem JNull k = Inl TypeError"
| "py_getitem (JBool b) k = Inl TypeError"
| "py_getitem (JNum n) k = Inl TypeError"

text \<open>
  \<^verbatim>\<open>for item in value\<close>: the elements of a list, the keys of a dict, the characters of a
  string. (A character is given here as one byte of the encoding. The only use of these
  items is the test \<^verbatim>\<open>"id" in item\<close>, which is false for every string of one character
  and of one byte alike.)
\<close>

fun py_iter :: "json \<Rightarrow> error + json list" where
  "py_iter (JArr xs) = Inr xs"
| "py_iter (JObj kvs) = Inr (map (\<lambda>kv. JStr (fst kv)) kvs)"
| "py_iter (JStr s) = Inr (map (\<lambda>c. JStr [c]) s)"
| "py_iter JNull = Inl TypeError"
| "py_iter (JBool b) = Inl TypeError"
| "py_iter (JNum n) = Inl TypeError"

text \<open>The comprehension \<^verbatim>\<open>[item["id"] for item in data["data"] if "id" in item]\<close>.\<close>

fun collect_ids :: "json list \<Rightarrow> error + json list" where
  "collect_ids [] = Inr []"
| "collect_ids (item # rest) =
     (case py_contains ''id'' item of
        Inl e \<Rightarrow> Inl e
      | Inr False \<Rightarrow> collect_ids rest
      | Inr True \<Rightarrow>
          (case py_getitem item ''id'' of
             Inl e \<Rightarrow> Inl e
           | Inr v \<Rightarrow> (case collect_ids rest of Inl e \<Rightarrow> Inl e | Inr vs \<Rightarrow> Inr (v # vs))))"

text \<open>The console warnings of \<^verbatim>\<open>fetch_models_from_endpoint\<close>, each with the URL it names.\<close>

datatype warning =
    UnexpectedFormat string
  | AuthenticationRequired string
  | HttpStatus int string
  | FetchFailed string

text \<open>
  The branch \<^verbatim>\<open>if response.status_code == 200\<close>: the two membership tests come first, the
  \<^verbatim>\<open>isinstance(data, list)\<close> test third. None of the exceptions of this branch is a
  \<^verbatim>\<open>RequestException\<close>, so none is caught by the loop.
\<close>

definition models_from_body :: "string \<Rightarrow> json \<Rightarrow> (error + json) \<times> warning list" where
  "models_from_body url data =
     (case py_contains ''data'' data of
        Inl e \<Rightarrow> (Inl e, [])
      | Inr True \<Rightarrow>
          (case py_getitem data ''data'' of
             Inl e \<Rightarrow> (Inl e, [])
           | Inr d \<Rightarrow>
               (case py_iter d of
                  Inl e \<Rightarrow> (Inl e, [])
                | Inr items \<Rightarrow>
                    (case collect_ids items of
                       Inl e \<Rightarrow> (Inl e, [])
                     | Inr ids \<Rightarrow> (Inr (JArr ids), []))))
      | Inr False \<Rightarrow>
          (case py_contains ''models'' data of
             Inl e \<Rightarrow> (Inl e, [])
           | Inr True \<Rightarrow> (py_getitem data ''models'', [])
           | Inr False \<Rightarrow>
               (case data of
                  JArr xs \<Rightarrow> (Inr data, [])
                | _ \<Rightarrow> (Inr (JArr []), [UnexpectedFormat url]))))"

fun try_urls :: "http \<Rightarrow> string option \<Rightarrow> string list \<Rightarrow> (error + json) \<times> warning list" where
  "try_urls get headers [] = (Inr (JArr []), [])"
| "try_urls get headers (url # urls) =
     (case get url headers of
        RequestException \<Rightarrow>
          (case try_urls get headers urls of (r, ws) \<Rightarrow> (r, FetchFailed url # ws))
      | Response status_code data \<Rightarrow>
          if status_code = 200 then models_from_body url data
          else if status_code = 401 then
            (case try_urls get headers urls of (r, ws) \<Rightarrow> (r, AuthenticationRequired url # ws))
          else if status_code = 404 then try_urls get headers urls
          else
            (case try_urls get headers urls of (r, ws) \<Rightarrow> (r, HttpStatus status_code url # ws)))"

text \<open>
  \<^verbatim>\<open>fetch_models_from_endpoint\<close> strips one trailing slash, and sends the bearer header when
  \<^verbatim>\<open>api_key\<close> is truthy (present and not empty).
\<close>

definition fetch_models_from_endpoint ::
  "http \<Rightarrow> string \<Rightarrow> string option \<Rightarrow> (error + json) \<times> warning list" where
  "fetch_models_from_endpoint get raw_url key =
     (let base_url = (if suffix ''/'' raw_url then butlast raw_url else raw_url);
          urls_to_try = [fst (candidate_urls base_url), snd (candidate_urls base_url)];
          headers = (case key of None \<Rightarrow> None | Some k \<Rightarrow> if k = [] then None else Some k)
      in try_urls get headers urls_to_try)"

section \<open>The command layer\<close>

text \<open>
  The commands of \<^verbatim>\<open>cli.py\<close>, without their console output and without the
  \<^verbatim>\<open>ccr stop\<close> call. \<^verbatim>\<open>sys.exit(1)\<close> after an error message is the error value. A dict is
  an association list: \<^verbatim>\<open>d[k] = v\<close> is \<open>AList.update k v d\<close>, \<^verbatim>\<open>d.pop(k, None)\<close> is
  \<open>AList.delete k d\<close>, \<^verbatim>\<open>d.get(k)\<close> is \<open>map_of d k\<close>.
\<close>

text \<open>Python's truth value of a JSON value.\<close>

fun truthy :: "json \<Rightarrow> bool" where
  "truthy JNull = False"
| "truthy (JBool b) = b"
| "truthy (JNum n) = (n \<noteq> 0)"
| "truthy (JStr s) = (s \<noteq> [])"
| "truthy (JArr xs) = (xs \<noteq> [])"
| "truthy (JObj kvs) = (kvs \<noteq> [])"

text \<open>
  The first half of \<^verbatim>\<open>change_router\<close>: the value to store, from \<^verbatim>\<open>provider,model\<close> (split
  at the first comma) or from a bare model name that exactly one provider has.
\<close>

definition resolve_model_value :: "string \<Rightarrow> store \<Rightarrow> error + string" where
  "resolve_model_value model_value st =
     (if CHR '','' \<in> set model_value then
        (let provider_name = strip (fst (split_first (CHR '','') model_value));
             model_name = strip (snd (split_first (CHR '','') model_value))
         in case validate_provider_model provider_name model_name st of
              Inl e \<Rightarrow> Inl e
            | Inr False \<Rightarrow> Inl ModelNotInProvider
            | Inr True \<Rightarrow> Inr (provider_name @ '','' @ model_name))
      else
        (let model_name = strip model_value
         in case find_providers_for_model model_name st of
              Inl e \<Rightarrow> Inl e
            | Inr [] \<Rightarrow> Inl ModelNotFound
            | Inr [provider_name] \<Rightarrow> Inr (provider_name @ '','' @ model_name)
            | Inr (_ # _ # _) \<Rightarrow> Inl AmbiguousModelReference))"

definition change_router :: "string \<Rightarrow> string \<Rightarrow> store \<Rightarrow> (error + unit) \<times> store" where
  "change_router router_type model_value st =
     (if router_type \<notin> set [''default'', ''background'', ''think'', ''longContext'', ''webSearch'']
      then (Inl InvalidRouterType, st)
      else
        (case resolve_model_value model_value st of
           Inl e \<Rightarrow> (Inl e, st)
         | Inr final_value \<Rightarrow>
             (case get_router_config st of
                Inl e \<Rightarrow> (Inl e, st)
              | Inr router_config \<Rightarrow>
                  update_router_config
                    (AList.update router_type (JStr final_value) router_config) st)))"

text \<open>
  In the three deleting commands \<open>confirmed\<close> is \<^verbatim>\<open>auto_confirm\<close> or the answer \<^verbatim>\<open>y\<close>
  to the prompt; without it the command returns and nothing changes.
\<close>

definition delete_router :: "string \<Rightarrow> bool \<Rightarrow> store \<Rightarrow> (error + unit) \<times> store" where
  "delete_router router_type confirmed st =
     (if router_type \<notin> set [''background'', ''think'', ''longContext'', ''webSearch'']
      then (Inl InvalidRouterType, st)
      else if \<not> confirmed then (Inr (), st)
      else
        (case get_router_config st of
           Inl e \<Rightarrow> (Inl e, st)
         | Inr router_config \<Rightarrow>
             if map_of router_config router_type = None then (Inr (), st)
             else
               (let rc1 = (if router_type = ''longContext''
                              \<and> map_of router_config ''longContextThreshold'' \<noteq> None
                           then AList.delete ''longContextThreshold'' router_config
                           else router_config)
                in update_router_config (AList.delete router_type rc1) st)))"

definition set_long_context_threshold :: "int \<Rightarrow> store \<Rightarrow> (error + unit) \<times> store" where
  "set_long_context_threshold threshold st =
     (case get_router_config st of
        Inl e \<Rightarrow> (Inl e, st)
      | Inr router_config \<Rightarrow>
          (case map_of router_config ''longContext'' of
             None \<Rightarrow> (Inl PreconditionFailed, st)
           | Some long_context \<Rightarrow>
               if \<not> truthy long_context then (Inl PreconditionFailed, st)
               else update_router_config
                      (AList.update ''longContextThreshold'' (JNum threshold) router_config) st))"

text \<open>
  The test of \<^verbatim>\<open>cli.delete_model\<close>:
  \<^verbatim>\<open>long_context and (long_context.endswith(f",{model_name}") or long_context == model_name)\<close>.
  A falsy value ends the \<^verbatim>\<open>and\<close>; a truthy value that is not a string has no
  \<^verbatim>\<open>endswith\<close>, and the \<^verbatim>\<open>AttributeError\<close> is not caught.
\<close>

definition is_long_context_model :: "json \<Rightarrow> string \<Rightarrow> error + bool" where
  "is_long_context_model long_context model_name =
     (if \<not> truthy long_context then Inr False
      else case long_context of
             JStr s \<Rightarrow> Inr (suffix ('','' @ model_name) s \<or> s = model_name)
           | _ \<Rightarrow> Inl AttributeError)"

definition cli_delete_model :: "string \<Rightarrow> bool \<Rightarrow> store \<Rightarrow> (error + unit) \<times> store" where
  "cli_delete_model model_name confirmed st =
     (if \<not> confirmed then (Inr (), st)
      else
        (case get_router_config st of
           Inl e \<Rightarrow> (Inl e, st)
         | Inr router_config \<Rightarrow>
             (let long_context = (case map_of router_config ''longContext'' of
                                    None \<Rightarrow> JStr [] | Some v \<Rightarrow> v);
                  has_threshold = (map_of router_config ''longContextThreshold'' \<noteq> None)
              in case is_long_context_model long_context model_name of
                   Inl e \<Rightarrow> (Inl e, st)
                 | Inr is_lc \<Rightarrow>
                     (case delete_model model_name st of
                        (Inl e, st1) \<Rightarrow> (Inl e, st1)
                      | (Inr _, st1) \<Rightarrow>
                          if is_lc \<and> has_threshold then
                            (case get_router_config st1 of
                               Inl e \<Rightarrow> (Inl e, st1)
                             | Inr rc \<Rightarrow>
                                 update_router_config
                                   (AList.delete ''longContextThreshold'' rc) st1)
                          else (Inr (), st1)))))"

section \<open>Updating the model lists\<close>

text \<open>
  \<^verbatim>\<open>update_models\<close> works on Python sets. A set is a list without duplicates here, and the
  order in which a \<^verbatim>\<open>for\<close> loop visits a set, which Python leaves open, is the parameter
  \<open>ord\<close>: the loop over the set \<open>xs\<close> visits \<open>ord xs\<close>. The catalog that
  \<^verbatim>\<open>fetch_models_from_endpoint(base_url, api_key)\<close> returns for a provider is the parameter
  \<open>fetch\<close>: a list of model names, or the exception it raised.
\<close>

record report =
  added_models :: "(string \<times> string) list"
  removed_models :: "(string \<times> string) list"
  retained_models :: "(string \<times> string) list"

text \<open>
  The model names that the router section uses: every key but \<^verbatim>\<open>longContextThreshold\<close>
  whose value is a string with a comma contributes the stripped text after its last comma.
  A value without a comma contributes nothing.
\<close>

definition used_models :: "router_config \<Rightarrow> string list" where
  "used_models router_config =
     concat (map (\<lambda>(router_type, v).
                    case v of
                      JStr s \<Rightarrow>
                        if router_type \<noteq> ''longContextThreshold'' \<and> CHR '','' \<in> set s
                        then [strip (snd (rsplit_last (CHR '','') s))] else []
                    | _ \<Rightarrow> [])
                 router_config)"

text \<open>
  Inside the loops a \<^verbatim>\<open>ValueError\<close> is printed and the loop goes on; any other exception
  leaves \<^verbatim>\<open>update_models\<close> through its outer handler.
\<close>

definition is_value_error :: "error \<Rightarrow> bool" where
  "is_value_error e = (e = DuplicateProvider \<or> e = ProviderNotFound \<or> e = ModelNotFound)"

fun add_models ::
  "string \<Rightarrow> string list \<Rightarrow> (string \<times> string) list \<Rightarrow> store
     \<Rightarrow> (error + (string \<times> string) list) \<times> store" where
  "add_models pn [] added st = (Inr added, st)"
| "add_models pn (m # ms) added st =
     (case add_model_to_provider pn m st of
        (Inr _, st1) \<Rightarrow> add_models pn ms (added @ [(pn, m)]) st1
      | (Inl e, st1) \<Rightarrow>
          if is_value_error e then add_models pn ms added st1 else (Inl e, st1))"

fun remove_models ::
  "string \<Rightarrow> string list \<Rightarrow> string list \<Rightarrow> (string \<times> string) list \<Rightarrow> (string \<times> string) list
     \<Rightarrow> store \<Rightarrow> (error + (string \<times> string) list \<times> (string \<times> string) list) \<times> store" where
  "remove_models pn used [] removed retained st = (Inr (removed, retained), st)"
| "remove_models pn used (m # ms) removed retained st =
     (if m \<notin> set used then
        (case delete_model m st of
           (Inr _, st1) \<Rightarrow> remove_models pn used ms (removed @ [(pn, m)]) retained st1
         | (Inl e, st1) \<Rightarrow>
             if is_value_error e then remove_models pn used ms removed retained st1
             else (Inl e, st1))
      else remove_models pn used ms removed (retained @ [(pn, m)]) st)"

text \<open>
  The body of the loop over the providers, for one provider of the list read at the start.
  (With no provider at all \<^verbatim>\<open>update_models\<close> returns at once, as the empty loop does.)
\<close>

definition update_provider ::
  "(string \<Rightarrow> string option \<Rightarrow> error + string list) \<Rightarrow> (string list \<Rightarrow> string list)
     \<Rightarrow> provider \<Rightarrow> report \<Rightarrow> store \<Rightarrow> (error + report) \<times> store" where
  "update_provider fetch ord p rep st =
     (let provider_name = name p;
          current_models = remdups (models_of p)
      in case fetch (api_base_url p) (api_key p) of
           Inl e \<Rightarrow> (Inl e, st)
         | Inr catalog \<Rightarrow>
             (let fetched_models = remdups catalog in
              if fetched_models = [] then
                (Inr (rep\<lparr>retained_models :=
                        retained_models rep @ map (Pair provider_name) (ord current_models)\<rparr>), st)
              else
                (let models_to_add = filter (\<lambda>m. m \<notin> set current_models) fetched_models;
                     models_to_remove = filter (\<lambda>m. m \<notin> set fetched_models) current_models;
                     models_to_retain = filter (\<lambda>m. m \<in> set fetched_models) current_models
                 in case add_models provider_name (ord models_to_add) (added_models rep) st of
                      (Inl e, st1) \<Rightarrow> (Inl e, st1)
                    | (Inr added, st1) \<Rightarrow>
                        (case get_router_config st1 of
                           Inl e \<Rightarrow> (Inl e, st1)
                         | Inr router_config \<Rightarrow>
                             (case remove_models provider_name (used_models router_config)
                                     (ord models_to_remove) (removed_models rep)
                                     (retained_models rep) st1 of
                                (Inl e, st2) \<Rightarrow> (Inl e, st2)
                              | (Inr (removed, retained), st2) \<Rightarrow>
                                  (Inr \<lparr>added_models = added, removed_models = removed,
                                        retained_models =
                                          retained @ map (Pair provider_name) (ord models_to_retain)\<rparr>,
                                   st2))))))"

fun update_providers ::
  "(string \<Rightarrow> string option \<Rightarrow> error + string list) \<Rightarrow> (string list \<Rightarrow> string list)
     \<Rightarrow> provider list \<Rightarrow> report \<Rightarrow> store \<Rightarrow> (error + report) \<times> store" where
  "update_providers fetch ord [] rep st = (Inr rep, st)"
| "update_providers fetch ord (p # ps) rep st =
     (case update_provider fetch ord p rep st of
        (Inl e, st1) \<Rightarrow> (Inl e, st1)
      | (Inr rep1, st1) \<Rightarrow> update_providers fetch ord ps rep1 st1)"

definition update_models ::
  "(string \<Rightarrow> string option \<Rightarrow> error + string list) \<Rightarrow> (string list \<Rightarrow> string list)
     \<Rightarrow> store \<Rightarrow> (error + report) \<times> store" where
  "update_models fetch ord st =
     (case get_providers st of
        Inl e \<Rightarrow> (Inl e, st)
      | Inr providers \<Rightarrow>
          update_providers fetch ord providers
            \<lparr>added_models = [], removed_models = [], retained_models = []\<rparr> st)"

section \<open>The mutating operations as one family\<close>

text \<open>
  The five mutating operations of \<^verbatim>\<open>ConfigManager\<close>: \<^verbatim>\<open>add_provider\<close>,
  \<^verbatim>\<open>add_model_to_provider\<close>, \<^verbatim>\<open>delete_provider\<close>, \<^verbatim>\<open>delete_model\<close> and
  \<^verbatim>\<open>update_router_config\<close>, so that a statement can speak of any of them.
\<close>

datatype operation =
    AddProvider provider
  | AddModelToProvider string string
  | DeleteProvider string
  | DeleteModel string
  | SetRouterSection router_config

fun run :: "operation \<Rightarrow> store \<Rightarrow> (error + unit) \<times> store" where
  "run (AddProvider new) st = add_provider new st"
| "run (AddModelToProvider pn m) st = add_model_to_provider pn m st"
| "run (DeleteProvider pn) st = delete_provider pn st"
| "run (DeleteModel m) st = delete_model m st"
| "run (SetRouterSection r) st = update_router_config r st"

text \<open>
  The document as an operation leaves it in memory before it saves: the new record at
  the end; the model at the end of the list of the first provider with the name; the
  providers without those of the name; every model list without the first occurrence of
  the model; the router section replaced.
\<close>

definition append_model_to_first :: "string \<Rightarrow> string \<Rightarrow> provider list \<Rightarrow> provider list" where
  "append_model_to_first pn m ps =
     takeWhile (\<lambda>p. name p \<noteq> pn) ps
     @ (case dropWhile (\<lambda>p. name p \<noteq> pn) ps of
          [] \<Rightarrow> []
        | p # rest \<Rightarrow> p\<lparr>models := Some (models_of p @ [m])\<rparr> # rest)"

fun modified_document :: "operation \<Rightarrow> document \<Rightarrow> document" where
  "modified_document (AddProvider new) d = d\<lparr>Providers := Some (providers_of d @ [new])\<rparr>"
| "modified_document (AddModelToProvider pn m) d =
     d\<lparr>Providers := Some (append_model_to_first pn m (providers_of d))\<rparr>"
| "modified_document (DeleteProvider pn) d =
     d\<lparr>Providers := Some (filter (\<lambda>p. name p \<noteq> pn) (providers_of d))\<rparr>"
| "modified_document (DeleteModel m) d =
     d\<lparr>Providers :=
         Some (map (\<lambda>p. if m \<in> set (models_of p)
                         then p\<lparr>models := Some (remove1 m (models_of p))\<rparr> else p)
                 (providers_of d))\<rparr>"
| "modified_document (SetRouterSection r) d = d\<lparr>Router := Some r\<rparr>"

text \<open>
  The case in which \<^verbatim>\<open>add_model_to_provider\<close> returns without saving: the first provider
  with the name already has the model.
\<close>

fun already_present :: "operation \<Rightarrow> document \<Rightarrow> bool" where
  "already_present (AddModelToProvider pn m) d =
     (case find (\<lambda>p. name p = pn) (providers_of d) of
        None \<Rightarrow> False
      | Some p \<Rightarrow> m \<in> set (models_of p))"
| "already_present (AddProvider new) d = False"
| "already_present (DeleteProvider pn) d = False"
| "already_present (DeleteModel m) d = False"
| "already_present (SetRouterSection r) d = False"

text \<open>The same document with both sections present: an absent section becomes an empty one.\<close>

definition with_empty_sections :: "document \<Rightarrow> document" where
  "with_empty_sections d = d\<lparr>Router := Some (router_of d), Providers := Some (providers_of d)\<rparr>"

section \<open>Predicates and example documents used in the statements\<close>

text \<open>A probe fails when it answers 404 or raises a \<^verbatim>\<open>RequestException\<close>.\<close>

fun probe_failed :: "http_result \<Rightarrow> bool" where
  "probe_failed RequestException = True"
| "probe_failed (Response status_code data) = (status_code = 404)"

text \<open>
  The guard \<^verbatim>\<open>if not long_context\<close> of \<^verbatim>\<open>set_long_context_threshold\<close>, on
  \<^verbatim>\<open>router_config.get("longContext")\<close>: the assignment is set when the key is there and its
  value is truthy (for a string: not empty).
\<close>

definition long_context_set :: "router_config \<Rightarrow> bool" where
  "long_context_set router_config =
     (case map_of router_config ''longContext'' of None \<Rightarrow> False | Some v \<Rightarrow> truthy v)"

text \<open>
  One provider \<^verbatim>\<open>p1\<close> with the models \<^verbatim>\<open>m1\<close> and \<^verbatim>\<open>m2\<close>; a document whose
  \<^verbatim>\<open>longContext\<close> is \<^verbatim>\<open>p1,m1\<close> with a threshold of 1000, and a store that holds it.
\<close>

definition provider_p1 :: provider where
  "provider_p1 =
     \<lparr>name = ''p1'', api_base_url = ''http://p1.example'', api_key = None,
      models = Some [''m1'', ''m2''], provider_extra = []\<rparr>"

definition doc_long_context :: document where
  "doc_long_context =
     \<lparr>Router = Some [(''default'', JStr ''p1,m2''), (''longContext'', JStr ''p1,m1''),
                     (''longContextThreshold'', JNum 1000)],
      Providers = Some [provider_p1], document_extra = []\<rparr>"

definition store_long_context :: store where
  "store_long_context = \<lparr>content = Some doc_long_context, saved = []\<rparr>"

text \<open>
  Two more provider records: one that collides with nothing in \<open>doc_long_context\<close>, and
  one with a new name and no key but the base URL of \<^verbatim>\<open>p1\<close>.
\<close>

definition provider_p2 :: provider where
  "provider_p2 =
     \<lparr>name = ''p2'', api_base_url = ''http://p2.example'', api_key = Some ''k2'',
      models = Some [], provider_extra = []\<rparr>"

definition provider_same_url :: provider where
  "provider_same_url =
     \<lparr>name = ''p3'', api_base_url = ''http://p1.example'', api_key = None,
      models = Some [], provider_extra = []\<rparr>"

text \<open>A valid JSON document with neither section, and a store that holds it.\<close>

definition doc_no_sections :: document where
  "doc_no_sections = \<lparr>Router = None, Providers = None, document_extra = [(''LOG'', JBool True)]\<rparr>"

definition store_no_sections :: store where
  "store_no_sections = \<lparr>content = Some doc_no_sections, saved = []\<rparr>"

text \<open>
  A provider with a model whose name has a comma (\<^verbatim>\<open>ccs add model p1 a,b\<close>), chosen for
  \<^verbatim>\<open>longContext\<close> (\<^verbatim>\<open>ccs change longContext p1,a,b\<close> splits at the first comma), with a
  threshold.
\<close>

definition provider_comma :: provider where
  "provider_comma =
     \<lparr>name = ''p1'', api_base_url = ''http://p1.example'', api_key = None,
      models = Some [''a,b'', ''m2''], provider_extra = []\<rparr>"

definition doc_comma_model :: document where
  "doc_comma_model =
     \<lparr>Router = Some [(''longContext'', JStr ''p1,a,b''), (''longContextThreshold'', JNum 1000)],
      Providers = Some [provider_comma], document_extra = []\<rparr>"

definition store_comma_model :: store where
  "store_comma_model = \<lparr>content = Some doc_comma_model, saved = []\<rparr>"

text \<open>
  For the update: a provider \<open>p'\<close> keeps what \<open>p\<close> had of the model names that the
  router section of \<open>d\<close> uses; and a store is \<open>preserved\<close> with respect to \<open>d\<close> when it
  holds a document with the router section of \<open>d\<close> whose providers, one by one, keep
  the used models of the providers of \<open>d\<close>.
\<close>

definition keeps_used :: "document \<Rightarrow> provider \<Rightarrow> provider \<Rightarrow> bool" where
  "keeps_used d p p' =
     (set (models_of p) \<inter> set (used_models (router_of d)) \<subseteq> set (models_of p'))"

definition preserved :: "document \<Rightarrow> store \<Rightarrow> bool" where
  "preserved d st =
     (\<exists>d'. content st = Some d' \<and> router_of d' = router_of d
          \<and> list_all2 (keeps_used d) (providers_of d) (providers_of d'))"

text \<open>
  A catalog that has only \<^verbatim>\<open>m2\<close>, whatever the provider; and the document of
  \<open>store_long_context\<close> with the \<^verbatim>\<open>longContext\<close> assignment written without a provider,
  as the bare model name \<^verbatim>\<open>m1\<close>.
\<close>

definition catalog_m2 :: "string \<Rightarrow> string option \<Rightarrow> error + string list" where
  "catalog_m2 url key = Inr [''m2'']"

text \<open>A catalog that has only \<^verbatim>\<open>m3\<close>, a model that no provider has yet.\<close>

definition catalog_m3 :: "string \<Rightarrow> string option \<Rightarrow> error + string list" where
  "catalog_m3 url key = Inr [''m3'']"

definition doc_bare_assignment :: document where
  "doc_bare_assignment =
     \<lparr>Router = Some [(''default'', JStr ''p1,m2''), (''longContext'', JStr ''m1'')],
      Providers = Some [provider_p1], document_extra = []\<rparr>"

definition store_bare_assignment :: store where
  "store_bare_assignment = \<lparr>content = Some doc_bare_assignment, saved = []\<rparr>"

section \<open>Adding a provider\<close>

lemma check_duplicates_Inl:
  "check_duplicates ps new = Inl e \<Longrightarrow> e = DuplicateProvider"
  by (induction ps) (auto split: if_splits)

lemma check_duplicates_iff:
  "check_duplicates ps new = Inl DuplicateProvider \<longleftrightarrow>
     (\<exists>p \<in> set ps. name p = name new \<or> api_base_url p = api_base_url new)"
  by (induction ps) auto

lemma check_duplicates_Inr:
  "check_duplicates ps new = Inr u \<longleftrightarrow>
     \<not> (\<exists>p \<in> set ps. name p = name new \<or> api_base_url p = api_base_url new)"
  by (induction ps) auto

lemma add_provider_unchecked_appends:
  "content st = Some d \<Longrightarrow>
     add_provider_unchecked new st
       = (Inr (), save_config (d\<lparr>Providers := Some (providers_of d @ [new])\<rparr>) st)"
  by (simp add: add_provider_unchecked_def load_config_def)

text \<open>
  C6. Whenever a provider of the stored document has the name or the base URL of the new
  record (either one, whatever the other fields are), \<open>add_provider\<close> fails with
  \<open>DuplicateProvider\<close> and leaves the store as it was. Otherwise it succeeds with one
  write, and the document stored afterwards, also as \<open>get_providers\<close> reads it back, has
  the old provider sequence followed by the new record, with the router section and every
  other key unchanged.
\<close>

theorem add_provider_duplicate_or_append:
  "content st = Some d \<Longrightarrow>
     ((\<exists>p \<in> set (providers_of d). name p = name new \<or> api_base_url p = api_base_url new)
        \<longrightarrow> add_provider new st = (Inl DuplicateProvider, st))
   \<and> (\<not> (\<exists>p \<in> set (providers_of d). name p = name new \<or> api_base_url p = api_base_url new)
        \<longrightarrow> (\<exists>st' d'. add_provider new st = (Inr (), st')
                 \<and> content st' = Some d' \<and> saved st' = saved st @ [d']
                 \<and> get_providers st' = Inr (providers_of d @ [new])
                 \<and> providers_of d' = providers_of d @ [new]
                 \<and> Router d' = Router d \<and> document_extra d' = document_extra d))"
proof (intro conjI impI)
  assume c: "content st = Some d"
  assume "\<exists>p \<in> set (providers_of d). name p = name new \<or> api_base_url p = api_base_url new"
  then have "check_duplicates (providers_of d) new = Inl DuplicateProvider"
    by (simp add: check_duplicates_iff)
  with c show "add_provider new st = (Inl DuplicateProvider, st)"
    by (simp add: add_provider_def check_duplicate_provider_def get_providers_def
        load_config_def)
next
  assume c: "content st = Some d"
  assume "\<not> (\<exists>p \<in> set (providers_of d). name p = name new \<or> api_base_url p = api_base_url new)"
  then have ok: "check_duplicates (providers_of d) new = Inr ()"
    by (simp add: check_duplicates_Inr)
  let ?d' = "d\<lparr>Providers := Some (providers_of d @ [new])\<rparr>"
  let ?st' = "save_config ?d' st"
  from c ok have "add_provider new st = (Inr (), ?st')"
    by (simp add: add_provider_def check_duplicate_provider_def get_providers_def
        load_config_def)
  moreover have "content ?st' = Some ?d'" and "saved ?st' = saved st @ [?d']"
    by (simp_all add: save_config_def)
  moreover have "providers_of ?d' = providers_of d @ [new]"
    by (simp add: providers_of_def)
  moreover have "get_providers ?st' = Inr (providers_of d @ [new])"
    by (simp add: get_providers_def load_config_def save_config_def providers_of_def)
  ultimately show "\<exists>st' d'. add_provider new st = (Inr (), st')
                 \<and> content st' = Some d' \<and> saved st' = saved st @ [d']
                 \<and> get_providers st' = Inr (providers_of d @ [new])
                 \<and> providers_of d' = providers_of d @ [new]
                 \<and> Router d' = Router d \<and> document_extra d' = document_extra d"
    by (intro exI [of _ ?st'] exI [of _ ?d']) simp
qed

text \<open>
  Both branches on the store that holds \<^verbatim>\<open>p1\<close>: the record with the base URL of \<^verbatim>\<open>p1\<close>
  is refused although its name and key differ, and \<^verbatim>\<open>p2\<close> is appended and read back
  after \<^verbatim>\<open>p1\<close>.
\<close>

theorem add_provider_duplicate_or_append_witness:
  "add_provider provider_same_url store_long_context = (Inl DuplicateProvider, store_long_context)
   \<and> (\<exists>st' d'. add_provider provider_p2 store_long_context = (Inr (), st')
          \<and> content st' = Some d' \<and> saved st' = [d']
          \<and> get_providers st' = Inr [provider_p1, provider_p2])"
proof -
  have c: "content store_long_context = Some doc_long_context"
    by (simp add: store_long_context_def)
  have ps: "providers_of doc_long_context = [provider_p1]"
    by (simp add: doc_long_context_def providers_of_def)
  have e: "saved store_long_context = []" by (simp add: store_long_context_def)
  have dup: "\<exists>p \<in> set (providers_of doc_long_context).
               name p = name provider_same_url \<or> api_base_url p = api_base_url provider_same_url"
    by (simp add: ps provider_p1_def provider_same_url_def)
  have new: "\<not> (\<exists>p \<in> set (providers_of doc_long_context).
               name p = name provider_p2 \<or> api_base_url p = api_base_url provider_p2)"
    by (simp add: ps provider_p1_def provider_p2_def)
  from add_provider_duplicate_or_append [OF c, of provider_same_url] dup
  have 1: "add_provider provider_same_url store_long_context
             = (Inl DuplicateProvider, store_long_context)"
    by blast
  from add_provider_duplicate_or_append [OF c, of provider_p2] new
  have 2: "\<exists>st' d'. add_provider provider_p2 store_long_context = (Inr (), st')
          \<and> content st' = Some d' \<and> saved st' = [d']
          \<and> get_providers st' = Inr [provider_p1, provider_p2]"
    by (simp add: ps e) blast
  from 1 2 show ?thesis by blast
qed

section \<open>Endpoint validation: both probes fail\<close>

lemma validate_both_fail_plain:
  assumes "\<not> suffix ''/v1'' (rstrip_char (CHR ''/'') raw)"
    and "probe_failed (get (fst (candidate_urls (rstrip_char (CHR ''/'') raw))) None)"
    and "probe_failed (get (snd (candidate_urls (rstrip_char (CHR ''/'') raw))) None)"
  shows "validate_provider_endpoint get raw = rstrip_char (CHR ''/'') raw"
  using assms
  by (auto simp: validate_provider_endpoint_def try_without_v1_def without_v1_def Let_def
      split: http_result.splits)

lemma validate_both_fail_v1:
  assumes "suffix ''/v1'' (rstrip_char (CHR ''/'') raw)"
    and "probe_failed (get (fst (candidate_urls (rstrip_char (CHR ''/'') raw))) None)"
    and "get (snd (candidate_urls (rstrip_char (CHR ''/'') raw))) None = Response 404 body"
  shows "validate_provider_endpoint get raw
           = take (length (rstrip_char (CHR ''/'') raw) - 3) (rstrip_char (CHR ''/'') raw)"
  using assms
  by (auto simp: validate_provider_endpoint_def try_without_v1_def without_v1_def Let_def
      split: http_result.splits)

text \<open>
  C3. The claim: when both probes fail (404 or network error) the result is the trimmed
  URL, also for a URL that ends with \<^verbatim>\<open>/v1\<close>. The code at \<^verbatim>\<open>http://x.com/v1\<close> with both
  probes answering 404: the second probe's 404 falls into the branch for the other 4xx
  codes, and the result is \<^verbatim>\<open>http://x.com\<close>, without the \<^verbatim>\<open>/v1\<close> of the input.
\<close>

theorem validate_provider_endpoint_both_404_strips_v1:
  "validate_provider_endpoint (\<lambda>url headers. Response 404 JNull) ''http://x.com/v1''
     = ''http://x.com''"
  by code_simp

section \<open>Fetching a catalog: the shape of a 200 body\<close>

lemma models_from_body_array:
  "JStr ''data'' \<notin> set xs \<Longrightarrow> JStr ''models'' \<notin> set xs
     \<Longrightarrow> models_from_body url (JArr xs) = (Inr (JArr xs), [])"
  by (simp add: models_from_body_def)

lemma models_from_body_array_raises:
  "JStr ''data'' \<in> set xs \<or> JStr ''models'' \<in> set xs
     \<Longrightarrow> models_from_body url (JArr xs) = (Inl TypeError, [])"
  by (auto simp add: models_from_body_def split: bool.splits)

lemma models_from_body_models:
  "map_of kvs ''data'' = None \<Longrightarrow> map_of kvs ''models'' = Some v
     \<Longrightarrow> models_from_body url (JObj kvs) = (Inr v, [])"
  by (auto simp add: models_from_body_def map_of_eq_None_iff split: sum.splits bool.splits
      dest: map_of_SomeD intro: image_eqI [where x = "(''models'', v)"])

lemma models_from_body_other_object:
  "map_of kvs ''data'' = None \<Longrightarrow> map_of kvs ''models'' = None
     \<Longrightarrow> models_from_body url (JObj kvs) = (Inr (JArr []), [UnexpectedFormat url])"
  by (auto simp add: models_from_body_def map_of_eq_None_iff split: sum.splits bool.splits)

text \<open>
  C7. The claim: every 200 response whose body is a bare JSON array returns that array and
  does not fail. The code at the body \<^verbatim>\<open>["llama", "data"]\<close>: \<^verbatim>\<open>"data" in data\<close> is true for
  the list, \<^verbatim>\<open>data["data"]\<close> raises \<^verbatim>\<open>TypeError\<close>, which the loop does not catch.
\<close>

theorem fetch_models_bare_array_raises:
  "fetch_models_from_endpoint
     (\<lambda>url headers. Response 200 (JArr [JStr ''llama'', JStr ''data'']))
     ''http://x.com'' None
   = (Inl TypeError, [])"
  by code_simp

section \<open>Setting the long-context threshold\<close>

text \<open>
  C9. When \<^verbatim>\<open>longContext\<close> is not set, \<open>set_long_context_threshold\<close> fails with
  \<open>PreconditionFailed\<close> and the store is what it was. When it is set, the command succeeds
  with one write; the written router section maps \<^verbatim>\<open>longContextThreshold\<close> to the given
  integer, reading the router section back returns it, and \<^verbatim>\<open>longContext\<close>, the providers
  and the other keys are unchanged.
\<close>

theorem set_long_context_threshold_precondition:
  "content st = Some d \<Longrightarrow>
     (\<not> long_context_set (router_of d)
        \<longrightarrow> set_long_context_threshold t st = (Inl PreconditionFailed, st))
   \<and> (long_context_set (router_of d)
        \<longrightarrow> (\<exists>d'. set_long_context_threshold t st = (Inr (), save_config d' st)
               \<and> map_of (router_of d') ''longContextThreshold'' = Some (JNum t)
               \<and> get_router_config (save_config d' st) = Inr (router_of d')
               \<and> map_of (router_of d') ''longContext'' = map_of (router_of d) ''longContext''
               \<and> Providers d' = Providers d \<and> document_extra d' = document_extra d))"
proof (intro conjI impI)
  assume c: "content st = Some d" and n: "\<not> long_context_set (router_of d)"
  then show "set_long_context_threshold t st = (Inl PreconditionFailed, st)"
    by (auto simp: set_long_context_threshold_def long_context_set_def get_router_config_def
        load_config_def split: option.splits)
next
  assume c: "content st = Some d" and y: "long_context_set (router_of d)"
  let ?d' = "d\<lparr>Router := Some (AList.update ''longContextThreshold'' (JNum t) (router_of d))\<rparr>"
  from c y have "set_long_context_threshold t st = (Inr (), save_config ?d' st)"
    by (auto simp: set_long_context_threshold_def long_context_set_def get_router_config_def
        load_config_def update_router_config_def split: option.splits)
  moreover have "map_of (router_of ?d') ''longContextThreshold'' = Some (JNum t)"
    and "map_of (router_of ?d') ''longContext'' = map_of (router_of d) ''longContext''"
    by (simp_all add: router_of_def update_conv')
  moreover have "get_router_config (save_config ?d' st) = Inr (router_of ?d')"
    by (simp add: get_router_config_def load_config_def save_config_def)
  ultimately show "\<exists>d'. set_long_context_threshold t st = (Inr (), save_config d' st)
               \<and> map_of (router_of d') ''longContextThreshold'' = Some (JNum t)
               \<and> get_router_config (save_config d' st) = Inr (router_of d')
               \<and> map_of (router_of d') ''longContext'' = map_of (router_of d) ''longContext''
               \<and> Providers d' = Providers d \<and> document_extra d' = document_extra d"
    by (intro exI [of _ ?d']) simp
qed

theorem set_long_context_threshold_precondition_witness:
  "long_context_set (router_of doc_long_context)
   \<and> (\<exists>d'. set_long_context_threshold 2000 store_long_context
               = (Inr (), save_config d' store_long_context)
          \<and> map_of (router_of d') ''longContextThreshold'' = Some (JNum 2000))"
proof -
  have c: "content store_long_context = Some doc_long_context"
    by (simp add: store_long_context_def)
  have y: "long_context_set (router_of doc_long_context)"
    by (simp add: long_context_set_def router_of_def doc_long_context_def)
  from set_long_context_threshold_precondition [OF c, of 2000] y show ?thesis
    by blast
qed

section \<open>Adding a model to a provider\<close>

lemma add_model_loop_None:
  "add_model_loop ps pn m = None \<longleftrightarrow> find (\<lambda>p. name p = pn) ps = None"
  by (induction ps) auto

lemma add_model_loop_present:
  "find (\<lambda>p. name p = pn) ps = Some p \<Longrightarrow> m \<in> set (models_of p)
     \<Longrightarrow> add_model_loop ps pn m = Some (False, ps)"
  by (induction ps) (auto split: if_splits)

lemma add_model_loop_absent:
  "find (\<lambda>p. name p = pn) ps = Some p \<Longrightarrow> m \<notin> set (models_of p)
     \<Longrightarrow> \<exists>ps'. add_model_loop ps pn m = Some (True, ps')
           \<and> find (\<lambda>p. name p = pn) ps' = Some (p\<lparr>models := Some (models_of p @ [m])\<rparr>)"
  by (induction ps) (auto split: if_splits)

lemma models_of_update [simp]: "models_of (p\<lparr>models := Some ms\<rparr>) = ms"
  by (simp add: models_of_def)

lemma providers_of_update [simp]: "providers_of (d\<lparr>Providers := Some ps\<rparr>) = ps"
  by (simp add: providers_of_def)

lemma count_list_append_one: "m \<notin> set ms \<Longrightarrow> count_list (ms @ [m]) m = 1"
  by (induction ms) auto

lemma count_list_pos: "m \<in> set ms \<Longrightarrow> count_list ms m \<ge> 1"
  by (induction ms) auto

text \<open>
  C8. If no provider has the name, \<open>add_model_to_provider\<close> fails with
  \<open>ProviderNotFound\<close> and the store is what it was. Otherwise, with \<open>p\<close> the first
  provider of that name: the call succeeds, a second call with the same arguments succeeds
  too and changes nothing (neither the document nor the log of writes), and afterwards the
  provider's list holds the model as often as before, or once if it did not hold it. For a
  list that held the model at most once (model lists are duplicate-free in the data model,
  and this operation keeps them so) that is exactly one occurrence.
\<close>

theorem add_model_to_provider_idempotent:
  "content st = Some d \<Longrightarrow>
     (find (\<lambda>p. name p = pn) (providers_of d) = None
        \<longrightarrow> add_model_to_provider pn m st = (Inl ProviderNotFound, st))
   \<and> (\<forall>p. find (\<lambda>p. name p = pn) (providers_of d) = Some p \<longrightarrow>
        (\<exists>st1 d1 p1.
            add_model_to_provider pn m st = (Inr (), st1)
          \<and> add_model_to_provider pn m st1 = (Inr (), st1)
          \<and> content st1 = Some d1
          \<and> find (\<lambda>p. name p = pn) (providers_of d1) = Some p1
          \<and> count_list (models_of p1) m = max 1 (count_list (models_of p) m)
          \<and> (count_list (models_of p) m \<le> 1 \<longrightarrow> count_list (models_of p1) m = 1)))"
proof (intro conjI impI allI)
  assume c: "content st = Some d"
    and "find (\<lambda>p. name p = pn) (providers_of d) = None"
  then have "content st = Some d" and "add_model_loop (providers_of d) pn m = None"
    by (simp_all add: add_model_loop_None)
  then show "add_model_to_provider pn m st = (Inl ProviderNotFound, st)"
    by (simp add: add_model_to_provider_def load_config_def)
next
  fix p
  assume c: "content st = Some d"
    and f: "find (\<lambda>p. name p = pn) (providers_of d) = Some p"
  show "\<exists>st1 d1 p1.
            add_model_to_provider pn m st = (Inr (), st1)
          \<and> add_model_to_provider pn m st1 = (Inr (), st1)
          \<and> content st1 = Some d1
          \<and> find (\<lambda>p. name p = pn) (providers_of d1) = Some p1
          \<and> count_list (models_of p1) m = max 1 (count_list (models_of p) m)
          \<and> (count_list (models_of p) m \<le> 1 \<longrightarrow> count_list (models_of p1) m = 1)"
  proof (cases "m \<in> set (models_of p)")
    case True
    with c f have "add_model_to_provider pn m st = (Inr (), st)"
      by (simp add: add_model_to_provider_def load_config_def add_model_loop_present)
    moreover from True have "count_list (models_of p) m \<ge> 1" by (rule count_list_pos)
    ultimately show ?thesis using c f
      by (intro exI [of _ st] exI [of _ d] exI [of _ p]) (auto simp: max_def)
  next
    case False
    with f obtain ps' where l: "add_model_loop (providers_of d) pn m = Some (True, ps')"
      and f': "find (\<lambda>p. name p = pn) ps' = Some (p\<lparr>models := Some (models_of p @ [m])\<rparr>)"
      using add_model_loop_absent by blast
    let ?d1 = "d\<lparr>Providers := Some ps'\<rparr>"
    let ?st1 = "save_config ?d1 st"
    let ?p1 = "p\<lparr>models := Some (models_of p @ [m])\<rparr>"
    from c l have 1: "add_model_to_provider pn m st = (Inr (), ?st1)"
      by (simp add: add_model_to_provider_def load_config_def)
    have c1: "content ?st1 = Some ?d1" by (simp add: save_config_def)
    have "m \<in> set (models_of ?p1)" by simp
    with f' have "add_model_loop (providers_of ?d1) pn m = Some (False, ps')"
      by (simp add: add_model_loop_present)
    with c1 have 2: "add_model_to_provider pn m ?st1 = (Inr (), ?st1)"
      by (simp add: add_model_to_provider_def load_config_def)
    from False have z: "count_list (models_of p) m = 0" by (simp add: count_list_0_iff)
    from False have o: "count_list (models_of ?p1) m = 1" by (simp add: count_list_append_one)
    show ?thesis using 1 2 c1 f' z o
      by (intro exI [of _ ?st1] exI [of _ ?d1] exI [of _ ?p1]) simp
  qed
qed

theorem add_model_to_provider_idempotent_witness:
  "find (\<lambda>p. name p = ''p1'') (providers_of doc_long_context) = Some provider_p1
   \<and> count_list (models_of provider_p1) ''m3'' \<le> 1
   \<and> (\<exists>st1 d1 p1.
          add_model_to_provider ''p1'' ''m3'' store_long_context = (Inr (), st1)
        \<and> add_model_to_provider ''p1'' ''m3'' st1 = (Inr (), st1)
        \<and> content st1 = Some d1
        \<and> find (\<lambda>p. name p = ''p1'') (providers_of d1) = Some p1
        \<and> count_list (models_of p1) ''m3'' = 1)"
proof -
  have c: "content store_long_context = Some doc_long_context"
    by (simp add: store_long_context_def)
  have f: "find (\<lambda>p. name p = ''p1'') (providers_of doc_long_context) = Some provider_p1"
    by (simp add: doc_long_context_def providers_of_def provider_p1_def)
  have n: "count_list (models_of provider_p1) ''m3'' \<le> 1"
    by (simp add: provider_p1_def models_of_def)
  from add_model_to_provider_idempotent [OF c, of "''p1''" "''m3''"] f n
  have "\<exists>st1 d1 p1.
          add_model_to_provider ''p1'' ''m3'' store_long_context = (Inr (), st1)
        \<and> add_model_to_provider ''p1'' ''m3'' st1 = (Inr (), st1)
        \<and> content st1 = Some d1
        \<and> find (\<lambda>p. name p = ''p1'') (providers_of d1) = Some p1
        \<and> count_list (models_of p1) ''m3'' = 1"
    by blast
  with f n show ?thesis by blast
qed

section \<open>Atomicity of the mutating operations\<close>

lemma run_failure_unchanged: "run op st = (Inl e, st') \<Longrightarrow> st' = st"
  by (cases op)
    (auto simp: add_provider_def add_model_to_provider_def delete_provider_def
      delete_model_def update_router_config_def Let_def
      split: sum.splits option.splits if_splits prod.splits bool.splits)

lemma add_model_loop_eq:
  "add_model_loop ps pn m =
     (case find (\<lambda>p. name p = pn) ps of
        None \<Rightarrow> None
      | Some p \<Rightarrow> if m \<in> set (models_of p) then Some (False, ps)
                  else Some (True, append_model_to_first pn m ps))"
  by (induction ps) (auto simp: append_model_to_first_def split: option.splits)

lemma run_eq:
  "content st = Some d \<Longrightarrow>
     run op st =
       (case op of
          AddProvider new \<Rightarrow>
            if \<exists>p \<in> set (providers_of d). name p = name new \<or> api_base_url p = api_base_url new
            then (Inl DuplicateProvider, st)
            else (Inr (), save_config (modified_document op d) st)
        | AddModelToProvider pn m \<Rightarrow>
            (case find (\<lambda>p. name p = pn) (providers_of d) of
               None \<Rightarrow> (Inl ProviderNotFound, st)
             | Some p \<Rightarrow> if m \<in> set (models_of p) then (Inr (), st)
                         else (Inr (), save_config (modified_document op d) st))
        | DeleteProvider pn \<Rightarrow>
            if \<exists>p \<in> set (providers_of d). name p = pn
            then (Inr (), save_config (modified_document op d) st)
            else (Inl ProviderNotFound, st)
        | DeleteModel m \<Rightarrow>
            if \<exists>p \<in> set (providers_of d). m \<in> set (models_of p)
            then (Inr (), save_config (modified_document op d) st)
            else (Inl ModelNotFound, st)
        | SetRouterSection r \<Rightarrow> (Inr (), save_config (modified_document op d) st))"
proof (cases op)
  case (AddProvider new)
  assume c: "content st = Some d"
  show ?thesis
  proof (cases "\<exists>p \<in> set (providers_of d).
                  name p = name new \<or> api_base_url p = api_base_url new")
    case True
    then have "check_duplicates (providers_of d) new = Inl DuplicateProvider"
      by (simp add: check_duplicates_iff)
    with c AddProvider True show ?thesis
      by (simp add: add_provider_def check_duplicate_provider_def get_providers_def
          load_config_def)
  next
    case False
    then have "check_duplicates (providers_of d) new = Inr ()"
      by (simp add: check_duplicates_Inr)
    with c AddProvider False show ?thesis
      by (simp add: add_provider_def check_duplicate_provider_def get_providers_def
          load_config_def)
  qed
next
  case (AddModelToProvider pn m)
  assume "content st = Some d"
  with AddModelToProvider show ?thesis
    by (simp add: add_model_to_provider_def load_config_def add_model_loop_eq
        split: option.splits)
next
  case (DeleteProvider pn)
  assume c: "content st = Some d"
  have "length (filter (\<lambda>p. name p \<noteq> pn) (providers_of d)) = length (providers_of d)
          \<longleftrightarrow> \<not> (\<exists>p \<in> set (providers_of d). name p = pn)"
    by (auto simp: filter_id_conv dest: length_filter_less [of _ _ "\<lambda>p. name p \<noteq> pn"])
  with DeleteProvider c show ?thesis
    by (auto simp: delete_provider_def load_config_def Let_def)
next
  case (DeleteModel m)
  assume "content st = Some d"
  with DeleteModel show ?thesis
    by (simp add: delete_model_def load_config_def Let_def remove_model_def [abs_def])
next
  case (SetRouterSection r)
  assume "content st = Some d"
  with SetRouterSection show ?thesis by (simp add: update_router_config_def load_config_def)
qed

text \<open>
  C5, as the claim states it, fails: adding a model that the provider already has succeeds
  and writes nothing.
\<close>

theorem add_present_model_writes_nothing:
  "run (AddModelToProvider ''p1'' ''m1'') store_long_context = (Inr (), store_long_context)
   \<and> saved store_long_context = []"
  by (simp add: add_model_to_provider_def load_config_def store_long_context_def
      doc_long_context_def provider_p1_def providers_of_def models_of_def)

text \<open>
  C5, amended. For each of the five mutating operations on a stored document: when it
  fails with its typed error (\<open>DuplicateProvider\<close>, \<open>ProviderNotFound\<close>,
  \<open>ModelNotFound\<close>) the store, the document and the log of writes, is exactly what it was
  before; when it succeeds, the modified document, all of it, is written exactly once and
  is the stored document afterwards; the one exception is \<open>add_model_to_provider\<close> for a
  model that the first provider of the name already has, which always succeeds, writes
  nothing and leaves the store as it was.
\<close>

theorem mutating_operation_atomic:
  "content st = Some d \<Longrightarrow> run op st = (r, st') \<Longrightarrow>
     (r = Inl DuplicateProvider \<or> r = Inl ProviderNotFound \<or> r = Inl ModelNotFound
        \<longrightarrow> st' = st)
   \<and> (r = Inr () \<and> \<not> already_present op d \<longrightarrow>
        st' = save_config (modified_document op d) st
        \<and> content st' = Some (modified_document op d)
        \<and> saved st' = saved st @ [modified_document op d])
   \<and> (already_present op d \<longrightarrow> r = Inr () \<and> st' = st)"
proof -
  assume c: "content st = Some d" and r: "run op st = (r, st')"
  have s: "content (save_config x st) = Some x \<and> saved (save_config x st) = saved st @ [x]" for x
    by (simp add: save_config_def)
  from r run_eq [OF c, of op] show ?thesis
    by (cases op) (auto simp: s split: if_splits option.splits)
qed

theorem mutating_operation_atomic_witness:
  "\<not> already_present (DeleteModel ''m1'') doc_long_context
   \<and> (\<exists>st'. run (DeleteModel ''m1'') store_long_context = (Inr (), st')
          \<and> saved st' = [modified_document (DeleteModel ''m1'') doc_long_context]
          \<and> get_providers st' = Inr [provider_p1\<lparr>models := Some [''m2'']\<rparr>])"
proof -
  have c: "content store_long_context = Some doc_long_context"
    by (simp add: store_long_context_def)
  have e: "saved store_long_context = []" by (simp add: store_long_context_def)
  have f: "fst (run (DeleteModel ''m1'') store_long_context) = Inr ()"
    by code_simp
  then have r: "run (DeleteModel ''m1'') store_long_context
                  = (Inr (), snd (run (DeleteModel ''m1'') store_long_context))"
    by (simp add: prod_eq_iff)
  have n: "\<not> already_present (DeleteModel ''m1'') doc_long_context" by simp
  have m: "providers_of (modified_document (DeleteModel ''m1'') doc_long_context)
             = [provider_p1\<lparr>models := Some [''m2'']\<rparr>]"
    by (simp add: doc_long_context_def providers_of_def remove_model_def provider_p1_def
        models_of_def)
  from mutating_operation_atomic [OF c r] n
  have k: "content (snd (run (DeleteModel ''m1'') store_long_context))
          = Some (modified_document (DeleteModel ''m1'') doc_long_context)
     \<and> saved (snd (run (DeleteModel ''m1'') store_long_context))
          = saved store_long_context @ [modified_document (DeleteModel ''m1'') doc_long_context]"
    by blast
  from k e have "saved (snd (run (DeleteModel ''m1'') store_long_context))
          = [modified_document (DeleteModel ''m1'') doc_long_context]"
    by (simp only: append_Nil)
  moreover from k m have "get_providers (snd (run (DeleteModel ''m1'') store_long_context))
          = Inr [provider_p1\<lparr>models := Some [''m2'']\<rparr>]"
    by (simp only: get_providers_def load_config_def option.case sum.case)
  ultimately have "saved (snd (run (DeleteModel ''m1'') store_long_context))
          = [modified_document (DeleteModel ''m1'') doc_long_context]"
    and "get_providers (snd (run (DeleteModel ''m1'') store_long_context))
          = Inr [provider_p1\<lparr>models := Some [''m2'']\<rparr>]"
    by blast+
  with r n show ?thesis by metis
qed

section \<open>Documents without a Router or Providers key\<close>

lemma providers_of_with_empty_sections [simp]:
  "providers_of (with_empty_sections d) = providers_of d"
  by (simp add: with_empty_sections_def providers_of_def)

lemma router_of_with_empty_sections [simp]:
  "router_of (with_empty_sections d) = router_of d"
  by (simp add: with_empty_sections_def router_of_def)

lemma run_with_empty_sections:
  "content st = Some d \<Longrightarrow>
     fst (run op st) = fst (run op (st\<lparr>content := Some (with_empty_sections d)\<rparr>))"
  by (cases op)
    (simp_all add: add_provider_def check_duplicate_provider_def get_providers_def
      load_config_def add_model_to_provider_def delete_provider_def delete_model_def
      update_router_config_def Let_def split: sum.splits option.splits prod.splits bool.splits)

lemma commands_with_empty_sections:
  assumes "content st = Some d"
  shows "fst (change_router rt mv st)
           = fst (change_router rt mv (st\<lparr>content := Some (with_empty_sections d)\<rparr>))"
    and "fst (delete_router rt c st)
           = fst (delete_router rt c (st\<lparr>content := Some (with_empty_sections d)\<rparr>))"
    and "fst (set_long_context_threshold t st)
           = fst (set_long_context_threshold t (st\<lparr>content := Some (with_empty_sections d)\<rparr>))"
    and "fst (cli_delete_model m c st)
           = fst (cli_delete_model m c (st\<lparr>content := Some (with_empty_sections d)\<rparr>))"
  using assms
  by (simp_all add: change_router_def resolve_model_value_def validate_provider_model_def
      find_providers_for_model_def get_all_models_def get_providers_def get_router_config_def
      load_config_def update_router_config_def delete_router_def set_long_context_threshold_def
      cli_delete_model_def delete_model_def save_config_def Let_def
      split: sum.splits option.splits list.splits bool.splits)

text \<open>
  C10. For a stored document without the \<^verbatim>\<open>Router\<close> key the router section reads as the
  empty mapping; without the \<^verbatim>\<open>Providers\<close> key the providers read as the empty
  sequence, and \<open>add_provider\<close> succeeds with one write, after which the stored document
  has a \<^verbatim>\<open>Providers\<close> sequence that holds exactly the new record, also as
  \<open>get_providers\<close> reads it back, and is otherwise unchanged. No operation fails because a
  section is absent: every mutating operation and every query of \<^verbatim>\<open>ConfigManager\<close>, and
  the commands that change or delete a router assignment, set the threshold or delete a
  model, give the same result (the same error, or success) as on the document that has the
  absent sections as empty ones.
\<close>

theorem absent_sections_are_empty:
  "content st = Some d \<Longrightarrow>
     (Router d = None \<longrightarrow> get_router_config st = Inr [])
   \<and> (Providers d = None \<longrightarrow> get_providers st = Inr [])
   \<and> (Providers d = None \<longrightarrow>
         (\<exists>st' d'. add_provider new st = (Inr (), st')
            \<and> content st' = Some d' \<and> saved st' = saved st @ [d']
            \<and> Providers d' = Some [new] \<and> get_providers st' = Inr [new]
            \<and> Router d' = Router d \<and> document_extra d' = document_extra d))
   \<and> fst (run op st) = fst (run op (st\<lparr>content := Some (with_empty_sections d)\<rparr>))
   \<and> get_router_config st = get_router_config (st\<lparr>content := Some (with_empty_sections d)\<rparr>)
   \<and> get_providers st = get_providers (st\<lparr>content := Some (with_empty_sections d)\<rparr>)
   \<and> get_all_models st = get_all_models (st\<lparr>content := Some (with_empty_sections d)\<rparr>)
   \<and> find_providers_for_model m st
       = find_providers_for_model m (st\<lparr>content := Some (with_empty_sections d)\<rparr>)
   \<and> validate_provider_model pn m st
       = validate_provider_model pn m (st\<lparr>content := Some (with_empty_sections d)\<rparr>)
   \<and> fst (change_router rt mv st)
       = fst (change_router rt mv (st\<lparr>content := Some (with_empty_sections d)\<rparr>))
   \<and> fst (delete_router rt c st)
       = fst (delete_router rt c (st\<lparr>content := Some (with_empty_sections d)\<rparr>))
   \<and> fst (set_long_context_threshold t st)
       = fst (set_long_context_threshold t (st\<lparr>content := Some (with_empty_sections d)\<rparr>))
   \<and> fst (cli_delete_model m c st)
       = fst (cli_delete_model m c (st\<lparr>content := Some (with_empty_sections d)\<rparr>))"
proof (intro conjI impI)
  assume c: "content st = Some d"
  show "fst (run op st) = fst (run op (st\<lparr>content := Some (with_empty_sections d)\<rparr>))"
    using c by (rule run_with_empty_sections)
  show "get_router_config st = get_router_config (st\<lparr>content := Some (with_empty_sections d)\<rparr>)"
    and "get_providers st = get_providers (st\<lparr>content := Some (with_empty_sections d)\<rparr>)"
    and "get_all_models st = get_all_models (st\<lparr>content := Some (with_empty_sections d)\<rparr>)"
    and "find_providers_for_model m st
       = find_providers_for_model m (st\<lparr>content := Some (with_empty_sections d)\<rparr>)"
    and "validate_provider_model pn m st
       = validate_provider_model pn m (st\<lparr>content := Some (with_empty_sections d)\<rparr>)"
    using c by (simp_all add: get_router_config_def get_providers_def get_all_models_def
        find_providers_for_model_def validate_provider_model_def load_config_def)
  show "fst (change_router rt mv st)
       = fst (change_router rt mv (st\<lparr>content := Some (with_empty_sections d)\<rparr>))"
    and "fst (delete_router rt c st)
       = fst (delete_router rt c (st\<lparr>content := Some (with_empty_sections d)\<rparr>))"
    and "fst (set_long_context_threshold t st)
       = fst (set_long_context_threshold t (st\<lparr>content := Some (with_empty_sections d)\<rparr>))"
    and "fst (cli_delete_model m c st)
       = fst (cli_delete_model m c (st\<lparr>content := Some (with_empty_sections d)\<rparr>))"
    using commands_with_empty_sections [OF c] by simp_all
  {
    assume "Router d = None"
    with c show "get_router_config st = Inr []"
      by (simp add: get_router_config_def load_config_def router_of_def)
  }
  {
    assume n: "Providers d = None"
    with c show "get_providers st = Inr []"
      by (simp add: get_providers_def load_config_def providers_of_def)
    let ?d' = "d\<lparr>Providers := Some [new]\<rparr>"
    let ?st' = "save_config ?d' st"
    from c n have "add_provider new st = (Inr (), ?st')"
      by (simp add: add_provider_def check_duplicate_provider_def get_providers_def
          load_config_def providers_of_def)
    moreover have "content ?st' = Some ?d'" and "saved ?st' = saved st @ [?d']"
      and "get_providers ?st' = Inr [new]"
      by (simp_all add: save_config_def get_providers_def load_config_def providers_of_def)
    ultimately show "\<exists>st' d'. add_provider new st = (Inr (), st')
            \<and> content st' = Some d' \<and> saved st' = saved st @ [d']
            \<and> Providers d' = Some [new] \<and> get_providers st' = Inr [new]
            \<and> Router d' = Router d \<and> document_extra d' = document_extra d"
      by (intro exI [of _ ?st'] exI [of _ ?d']) simp
  }
qed

theorem absent_sections_are_empty_witness:
  "get_router_config store_no_sections = Inr []
   \<and> get_providers store_no_sections = Inr []
   \<and> (\<exists>st' d'. add_provider provider_p1 store_no_sections = (Inr (), st')
          \<and> content st' = Some d' \<and> saved st' = [d']
          \<and> Providers d' = Some [provider_p1] \<and> get_providers st' = Inr [provider_p1])"
proof -
  have c: "content store_no_sections = Some doc_no_sections"
    by (simp add: store_no_sections_def)
  have r: "Router doc_no_sections = None" and p: "Providers doc_no_sections = None"
    by (simp_all add: doc_no_sections_def)
  have e: "saved store_no_sections = []" by (simp add: store_no_sections_def)
  from absent_sections_are_empty [OF c, of provider_p1] r p
  have "get_router_config store_no_sections = Inr []"
    and "get_providers store_no_sections = Inr []"
    and "\<exists>st' d'. add_provider provider_p1 store_no_sections = (Inr (), st')
          \<and> content st' = Some d' \<and> saved st' = saved store_no_sections @ [d']
          \<and> Providers d' = Some [provider_p1] \<and> get_providers st' = Inr [provider_p1]"
    by blast+
  with e show ?thesis by simp
qed

section \<open>Deleting a model: the cascade to the threshold\<close>

lemma rsplit_last_suffix:
  assumes "c \<notin> set m"
  shows "suffix (c # m) s \<longleftrightarrow> c \<in> set s \<and> snd (rsplit_last c s) = m"
proof
  assume "suffix (c # m) s"
  then obtain zs where s: "s = zs @ c # m" by (auto simp: suffix_def)
  then have "rev s = rev m @ c # rev zs" by simp
  moreover have "takeWhile (\<lambda>x. x \<noteq> c) (rev m @ c # rev zs) = rev m"
    using assms by (subst takeWhile_append2) auto
  ultimately show "c \<in> set s \<and> snd (rsplit_last c s) = m"
    using s by (simp add: rsplit_last_def)
next
  assume a: "c \<in> set s \<and> snd (rsplit_last c s) = m"
  then have m: "takeWhile (\<lambda>x. x \<noteq> c) (rev s) = rev m"
    by (auto simp: rsplit_last_def)
  from a have "c \<in> set (rev s)" by simp
  then have ne: "dropWhile (\<lambda>x. x \<noteq> c) (rev s) \<noteq> []"
    by (auto simp: dropWhile_eq_Nil_conv)
  then have "hd (dropWhile (\<lambda>x. x \<noteq> c) (rev s)) = c"
    using hd_dropWhile [of "\<lambda>x. x \<noteq> c" "rev s"] by simp
  with ne obtain rest where d: "dropWhile (\<lambda>x. x \<noteq> c) (rev s) = c # rest"
    by (cases "dropWhile (\<lambda>x. x \<noteq> c) (rev s)") auto
  have "rev s = takeWhile (\<lambda>x. x \<noteq> c) (rev s) @ dropWhile (\<lambda>x. x \<noteq> c) (rev s)"
    by simp
  with m d have "rev s = rev m @ c # rest" by simp
  then have "rev (rev s) = rev (rev m @ c # rest)" by (rule arg_cong)
  then have "s = rev rest @ c # m" by simp
  then show "suffix (c # m) s" by (auto simp: suffix_def)
qed

lemma is_long_context_model_comma_free:
  assumes "CHR '','' \<notin> set m"
  shows "is_long_context_model (JStr s) m
           = Inr (s \<noteq> [] \<and> (if CHR '','' \<in> set s then snd (rsplit_last (CHR '','') s) = m
                               else s = m))"
proof -
  have "suffix ('','' @ m) s \<longleftrightarrow> CHR '','' \<in> set s \<and> snd (rsplit_last (CHR '','') s) = m"
    using rsplit_last_suffix [OF assms, of s] by simp
  moreover have "s = m \<Longrightarrow> CHR '','' \<notin> set s" using assms by simp
  ultimately show ?thesis
    by (auto simp: is_long_context_model_def)
qed

lemma delete_model_success:
  "delete_model m st = (Inr u, st1) \<Longrightarrow> content st = Some d \<Longrightarrow>
     \<exists>d1. st1 = save_config d1 st \<and> Router d1 = Router d"
  by (auto simp: delete_model_def load_config_def Let_def split: if_splits)

lemma delete_model_failure: "delete_model m st = (Inl e, st1) \<Longrightarrow> st1 = st"
  by (auto simp: delete_model_def load_config_def Let_def split: if_splits option.splits)

text \<open>
  C4, as the claim states it, fails. The document has \<^verbatim>\<open>longContext = "p1,a,b"\<close> and a
  threshold; the text after the last comma of the assignment is \<^verbatim>\<open>b\<close>. Deleting the
  model \<^verbatim>\<open>a,b\<close> succeeds and removes the threshold, because the assignment ends with
  \<^verbatim>\<open>,a,b\<close>.
\<close>

theorem delete_comma_model_removes_threshold:
  "fst (cli_delete_model ''a,b'' True store_comma_model) = Inr ()
   \<and> get_router_config (snd (cli_delete_model ''a,b'' True store_comma_model))
       = Inr [(''longContext'', JStr ''p1,a,b'')]
   \<and> map_of (router_of doc_comma_model) ''longContextThreshold'' = Some (JNum 1000)
   \<and> snd (rsplit_last (CHR '','') ''p1,a,b'') = ''b''"
  by code_simp

text \<open>
  C4, amended. When \<open>cli_delete_model\<close> fails (the model is in no provider, or the
  \<^verbatim>\<open>longContext\<close> value is not a string) the store is what it was. When it succeeds, the
  threshold key is removed from the router section if and only if the threshold was set and
  the \<^verbatim>\<open>longContext\<close> assignment is a non-empty string that ends with a comma followed by
  the model name, or is the model name; in every other case the router section is
  untouched. For a model name without a comma that test is the claim's: the assignment is
  not empty, and the model name is the text after its last comma, or the whole assignment
  when it has no comma.
\<close>

theorem delete_model_threshold_cascade:
  "content st = Some d \<Longrightarrow> cli_delete_model m True st = (r, st') \<Longrightarrow>
     (\<forall>e. r = Inl e \<longrightarrow> st' = st)
   \<and> (r = Inr () \<longrightarrow>
        (\<exists>d'. content st' = Some d'
           \<and> (if is_long_context_model
                    (case map_of (router_of d) ''longContext'' of None \<Rightarrow> JStr [] | Some v \<Rightarrow> v) m
                    = Inr True
                  \<and> map_of (router_of d) ''longContextThreshold'' \<noteq> None
               then router_of d' = AList.delete ''longContextThreshold'' (router_of d)
               else Router d' = Router d)))
   \<and> (CHR '','' \<notin> set m \<longrightarrow>
        (\<forall>s. is_long_context_model (JStr s) m
               = Inr (s \<noteq> [] \<and> (if CHR '','' \<in> set s then snd (rsplit_last (CHR '','') s) = m
                                   else s = m))))"
proof (intro conjI allI impI)
  fix s assume "CHR '','' \<notin> set m"
  then show "is_long_context_model (JStr s) m
               = Inr (s \<noteq> [] \<and> (if CHR '','' \<in> set s then snd (rsplit_last (CHR '','') s) = m
                                   else s = m))"
    by (rule is_long_context_model_comma_free)
next
  fix e
  assume c: "content st = Some d" and r: "cli_delete_model m True st = (r, st')" and "r = Inl e"
  then show "st' = st"
    by (auto simp: cli_delete_model_def get_router_config_def load_config_def Let_def
        update_router_config_def save_config_def
        split: sum.splits prod.splits if_splits option.splits
        dest: delete_model_failure delete_model_success)
next
  let ?lc = "case map_of (router_of d) ''longContext'' of None \<Rightarrow> JStr [] | Some v \<Rightarrow> v"
  assume c: "content st = Some d" and r: "cli_delete_model m True st = (r, st')" and ok: "r = Inr ()"
  from c r ok obtain b where b: "is_long_context_model ?lc m = Inr b"
    by (auto simp: cli_delete_model_def get_router_config_def load_config_def Let_def
        split: sum.splits)
  from c r ok b obtain st1 where dm: "delete_model m st = (Inr (), st1)"
    by (auto simp: cli_delete_model_def get_router_config_def load_config_def Let_def
        split: sum.splits prod.splits)
  from delete_model_success [OF dm c] obtain d1 where
    st1: "st1 = save_config d1 st" and rd1: "Router d1 = Router d" by blast
  then have c1: "content st1 = Some d1" by (simp add: save_config_def)
  have rr: "router_of d1 = router_of d" using rd1 by (simp add: router_of_def)
  show "\<exists>d'. content st' = Some d'
           \<and> (if is_long_context_model ?lc m = Inr True
                  \<and> map_of (router_of d) ''longContextThreshold'' \<noteq> None
               then router_of d' = AList.delete ''longContextThreshold'' (router_of d)
               else Router d' = Router d)"
  proof (cases "b \<and> map_of (router_of d) ''longContextThreshold'' \<noteq> None")
    case True
    with c r ok b dm c1 rr
    have "st' = save_config (d1\<lparr>Router := Some (AList.delete ''longContextThreshold'' (router_of d))\<rparr>) st1"
      by (auto simp: cli_delete_model_def get_router_config_def load_config_def Let_def
          update_router_config_def)
    with True b show ?thesis by (auto simp: save_config_def router_of_def)
  next
    case False
    with c r ok b dm have "st' = st1"
      by (auto simp: cli_delete_model_def get_router_config_def load_config_def Let_def)
    with False b c1 rd1 show ?thesis by auto
  qed
qed

theorem delete_model_threshold_cascade_witness:
  "fst (cli_delete_model ''m1'' True store_long_context) = Inr ()
   \<and> map_of (router_of doc_long_context) ''longContextThreshold'' = Some (JNum 1000)
   \<and> (\<exists>d'. content (snd (cli_delete_model ''m1'' True store_long_context)) = Some d'
          \<and> router_of d' = AList.delete ''longContextThreshold'' (router_of doc_long_context))"
proof -
  have c: "content store_long_context = Some doc_long_context"
    by (simp add: store_long_context_def)
  have f: "fst (cli_delete_model ''m1'' True store_long_context) = Inr ()"
    by code_simp
  then have r: "cli_delete_model ''m1'' True store_long_context
                  = (Inr (), snd (cli_delete_model ''m1'' True store_long_context))"
    by (simp add: prod_eq_iff)
  have t: "map_of (router_of doc_long_context) ''longContextThreshold'' = Some (JNum 1000)"
    by (simp add: router_of_def doc_long_context_def)
  have l: "is_long_context_model
             (case map_of (router_of doc_long_context) ''longContext'' of
                None \<Rightarrow> JStr [] | Some v \<Rightarrow> v) ''m1'' = Inr True"
    by (simp add: router_of_def doc_long_context_def is_long_context_model_def
        suffix_to_prefix)
  from delete_model_threshold_cascade [OF c r] t l f show ?thesis
    by auto
qed

section \<open>Un-setting and overwriting a router assignment: the cascade to the threshold\<close>

lemma change_router_result:
  "content st = Some d \<Longrightarrow> change_router rt mv st = (r, st') \<Longrightarrow>
     (\<forall>e. r = Inl e \<longrightarrow> st' = st)
   \<and> (r = Inr () \<longrightarrow> (\<exists>v. st' = save_config (d\<lparr>Router := Some (AList.update rt (JStr v) (router_of d))\<rparr>) st
          \<and> rt \<in> set [''default'', ''background'', ''think'', ''longContext'', ''webSearch'']))"
  by (auto simp: change_router_def get_router_config_def load_config_def update_router_config_def
     split: if_splits sum.splits)

lemma delete_router_result:
  "content st = Some d \<Longrightarrow>
     delete_router rt c st =
       (if rt \<notin> set [''background'', ''think'', ''longContext'', ''webSearch'']
        then (Inl InvalidRouterType, st)
        else if \<not> c \<or> map_of (router_of d) rt = None then (Inr (), st)
        else (Inr (), save_config
               (d\<lparr>Router := Some (AList.delete rt
                  (if rt = ''longContext'' then AList.delete ''longContextThreshold'' (router_of d)
                   else router_of d))\<rparr>) st))"
  by (auto simp: delete_router_def get_router_config_def load_config_def update_router_config_def
      Let_def AList.delete_idem map_of_eq_None_iff AList.delete_id)

text \<open>
  C2, as the claim states it, fails: overwriting the \<^verbatim>\<open>longContext\<close> assignment
  (\<^verbatim>\<open>p1,m1\<close> becomes \<^verbatim>\<open>p1,m2\<close>) succeeds and the threshold key is still in the router
  section, with its value.
\<close>

theorem overwrite_long_context_keeps_threshold:
  "fst (change_router ''longContext'' ''p1,m2'' store_long_context) = Inr ()
   \<and> get_router_config (snd (change_router ''longContext'' ''p1,m2'' store_long_context))
       = Inr [(''default'', JStr ''p1,m2''), (''longContext'', JStr ''p1,m2''),
              (''longContextThreshold'', JNum 1000)]"
  by code_simp

text \<open>
  C2, amended. In a document whose threshold is set: un-setting \<^verbatim>\<open>longContext\<close>, when it
  is set and the deletion is confirmed, succeeds with one write, and the router section
  stored afterwards, also as \<open>get_router_config\<close> reads it back, is the old one without
  the assignment and without the threshold key; \<open>delete_router\<close> in every other case
  (another router type, no confirmation, or \<^verbatim>\<open>longContext\<close> not set) leaves the stored
  threshold as it was; and \<open>change_router\<close>, for every router type including
  \<^verbatim>\<open>longContext\<close> and whether it succeeds or not, leaves the stored threshold as it was.
\<close>

theorem threshold_cascade_on_router_change:
  "content st = Some d \<Longrightarrow> map_of (router_of d) ''longContextThreshold'' = Some t \<Longrightarrow>
     (map_of (router_of d) ''longContext'' \<noteq> None \<longrightarrow>
        (\<exists>st' d'. delete_router ''longContext'' True st = (Inr (), st')
           \<and> content st' = Some d' \<and> saved st' = saved st @ [d']
           \<and> get_router_config st' = Inr (router_of d')
           \<and> router_of d'
               = AList.delete ''longContext'' (AList.delete ''longContextThreshold'' (router_of d))
           \<and> map_of (router_of d') ''longContextThreshold'' = None
           \<and> map_of (router_of d') ''longContext'' = None
           \<and> Providers d' = Providers d \<and> document_extra d' = document_extra d))
   \<and> (\<forall>rt c r st'. delete_router rt c st = (r, st')
          \<and> (rt \<noteq> ''longContext'' \<or> \<not> c \<or> map_of (router_of d) ''longContext'' = None) \<longrightarrow>
        (\<exists>d'. content st' = Some d' \<and> map_of (router_of d') ''longContextThreshold'' = Some t))
   \<and> (\<forall>rt mv r st'. change_router rt mv st = (r, st') \<longrightarrow>
        (\<exists>d'. content st' = Some d' \<and> map_of (router_of d') ''longContextThreshold'' = Some t))"
proof (intro conjI allI impI)
  assume c: "content st = Some d" and l: "map_of (router_of d) ''longContext'' \<noteq> None"
  let ?r' = "AList.delete ''longContext'' (AList.delete ''longContextThreshold'' (router_of d))"
  let ?d' = "d\<lparr>Router := Some ?r'\<rparr>"
  let ?st' = "save_config ?d' st"
  from c l have "delete_router ''longContext'' True st = (Inr (), ?st')"
    by (auto simp: delete_router_result)
  moreover have "content ?st' = Some ?d'" and "saved ?st' = saved st @ [?d']"
    by (simp_all add: save_config_def)
  moreover have r: "router_of ?d' = ?r'" by (simp add: router_of_def)
  moreover have "get_router_config ?st' = Inr (router_of ?d')"
    by (simp add: get_router_config_def load_config_def save_config_def)
  moreover have "map_of ?r' ''longContextThreshold'' = None"
    and "map_of ?r' ''longContext'' = None"
    by (simp_all add: delete_conv')
  ultimately show "\<exists>st' d'. delete_router ''longContext'' True st = (Inr (), st')
           \<and> content st' = Some d' \<and> saved st' = saved st @ [d']
           \<and> get_router_config st' = Inr (router_of d')
           \<and> router_of d'
               = AList.delete ''longContext'' (AList.delete ''longContextThreshold'' (router_of d))
           \<and> map_of (router_of d') ''longContextThreshold'' = None
           \<and> map_of (router_of d') ''longContext'' = None
           \<and> Providers d' = Providers d \<and> document_extra d' = document_extra d"
    by (intro exI [of _ ?st'] exI [of _ ?d']) simp
next
  fix rt c r st'
  assume c: "content st = Some d" and t: "map_of (router_of d) ''longContextThreshold'' = Some t"
    and a: "delete_router rt c st = (r, st')
          \<and> (rt \<noteq> ''longContext'' \<or> \<not> c \<or> map_of (router_of d) ''longContext'' = None)"
  then show "\<exists>d'. content st' = Some d' \<and> map_of (router_of d') ''longContextThreshold'' = Some t"
    by (auto simp: delete_router_result save_config_def router_of_def delete_conv'
        split: if_splits)
next
  fix rt mv r st'
  assume c: "content st = Some d" and t: "map_of (router_of d) ''longContextThreshold'' = Some t"
    and a: "change_router rt mv st = (r, st')"
  from change_router_result [OF c a]
  show "\<exists>d'. content st' = Some d' \<and> map_of (router_of d') ''longContextThreshold'' = Some t"
    using c t by (cases r) (auto simp: save_config_def router_of_def update_conv')
qed

theorem threshold_cascade_on_router_change_witness:
  "map_of (router_of doc_long_context) ''longContextThreshold'' = Some (JNum 1000)
   \<and> map_of (router_of doc_long_context) ''longContext'' \<noteq> None
   \<and> (\<exists>st' d'. delete_router ''longContext'' True store_long_context = (Inr (), st')
          \<and> content st' = Some d' \<and> saved st' = [d']
          \<and> get_router_config st' = Inr [(''default'', JStr ''p1,m2'')])"
proof -
  have c: "content store_long_context = Some doc_long_context"
    by (simp add: store_long_context_def)
  have e: "saved store_long_context = []" by (simp add: store_long_context_def)
  have t: "map_of (router_of doc_long_context) ''longContextThreshold'' = Some (JNum 1000)"
    and l: "map_of (router_of doc_long_context) ''longContext'' \<noteq> None"
    by (simp_all add: router_of_def doc_long_context_def)
  have v: "AList.delete ''longContext''
             (AList.delete ''longContextThreshold'' (router_of doc_long_context))
           = [(''default'', JStr ''p1,m2'')]"
    by (simp add: router_of_def doc_long_context_def AList.delete_eq)
  from threshold_cascade_on_router_change [OF c t] l
  have "\<exists>st' d'. delete_router ''longContext'' True store_long_context = (Inr (), st')
           \<and> content st' = Some d' \<and> saved st' = saved store_long_context @ [d']
           \<and> get_router_config st' = Inr (router_of d')
           \<and> router_of d'
               = AList.delete ''longContext''
                   (AList.delete ''longContextThreshold'' (router_of doc_long_context))"
    by blast
  then have "\<exists>st' d'. delete_router ''longContext'' True store_long_context = (Inr (), st')
          \<and> content st' = Some d' \<and> saved st' = [d']
          \<and> get_router_config st' = Inr [(''default'', JStr ''p1,m2'')]"
    by (simp add: v e) metis
  with t l show ?thesis by blast
qed

section \<open>Updating the model lists: models used by the router\<close>

lemma preserved_refl: "content st = Some d \<Longrightarrow> preserved d st"
  by (auto simp: preserved_def keeps_used_def list_all2_same)

lemma add_model_loop_grows:
  "add_model_loop ps pn m = Some (b, ps')
     \<Longrightarrow> list_all2 (\<lambda>p p'. set (models_of p) \<subseteq> set (models_of p')) ps ps'"
proof (induction ps arbitrary: b ps')
  case Nil
  then show ?case by simp
next
  case (Cons p ps)
  show ?case
  proof (cases "name p = pn")
    case True
    with Cons.prems show ?thesis
      by (auto simp: list_all2_same split: if_splits)
  next
    case False
    with Cons.prems obtain qs where "add_model_loop ps pn m = Some (b, qs)" and "ps' = p # qs"
      by auto
    with Cons.IH show ?thesis by auto
  qed
qed

lemma list_all2_keeps_step:
  assumes "list_all2 (keeps_used d) ps qs"
    and "list_all2 (\<lambda>p p'. set (models_of p) \<inter> set (used_models (router_of d)) \<subseteq> set (models_of p')) qs rs"
  shows "list_all2 (keeps_used d) ps rs"
  using assms
  by (auto simp: list_all2_conv_all_nth keeps_used_def) blast

lemma add_model_to_provider_preserved:
  assumes "preserved d st" and "add_model_to_provider pn m st = (r, st1)"
  shows "preserved d st1"
proof -
  from assms(1) obtain d0 where c: "content st = Some d0" and r0: "router_of d0 = router_of d"
    and k: "list_all2 (keeps_used d) (providers_of d) (providers_of d0)"
    by (auto simp: preserved_def)
  show ?thesis
  proof (cases "add_model_loop (providers_of d0) pn m")
    case None
    with assms c show ?thesis by (simp add: add_model_to_provider_def load_config_def)
  next
    case (Some bp)
    obtain b ps' where bp: "bp = (b, ps')" by (cases bp)
    show ?thesis
    proof (cases b)
      case False
      with Some bp assms c show ?thesis
        by (simp add: add_model_to_provider_def load_config_def)
    next
      case True
      with Some bp assms(2) c have st1: "st1 = save_config (d0\<lparr>Providers := Some ps'\<rparr>) st"
        by (simp add: add_model_to_provider_def load_config_def)
      from Some bp have "list_all2 (\<lambda>p p'. set (models_of p) \<subseteq> set (models_of p')) (providers_of d0) ps'"
        using add_model_loop_grows by simp
      then have "list_all2 (\<lambda>p p'. set (models_of p) \<inter> set (used_models (router_of d)) \<subseteq> set (models_of p')) (providers_of d0) ps'"
        by (rule list_all2_mono) auto
      with k have "list_all2 (keeps_used d) (providers_of d) ps'"
        by (rule list_all2_keeps_step)
      with st1 r0 show ?thesis
        by (auto simp: preserved_def save_config_def router_of_def)
    qed
  qed
qed

lemma remove_model_keeps:
  "m \<notin> U \<Longrightarrow> set (models_of p) \<inter> U \<subseteq> set (models_of (remove_model m p))"
proof -
  assume n: "m \<notin> U"
  have "x \<in> set (remove1 m xs)" if "x \<in> set xs" and "x \<in> U" for x and xs :: "string list"
  proof -
    from that n have "x \<noteq> m" by auto
    with that show ?thesis by (simp add: in_set_remove1)
  qed
  then show ?thesis by (auto simp: remove_model_def)
qed

lemma delete_model_eq:
  "content st = Some d0 \<Longrightarrow>
     delete_model m st =
       (if \<exists>p \<in> set (providers_of d0). m \<in> set (models_of p)
        then (Inr (), save_config (d0\<lparr>Providers := Some (map (remove_model m) (providers_of d0))\<rparr>) st)
        else (Inl ModelNotFound, st))"
  by (simp add: delete_model_def load_config_def Let_def)

lemma delete_model_preserved:
  assumes "preserved d st" and "m \<notin> set (used_models (router_of d))"
    and "delete_model m st = (r, st1)"
  shows "preserved d st1"
proof -
  from assms(1) obtain d0 where c: "content st = Some d0" and r0: "router_of d0 = router_of d"
    and k: "list_all2 (keeps_used d) (providers_of d) (providers_of d0)"
    by (auto simp: preserved_def)
  show ?thesis
  proof (cases "\<exists>p \<in> set (providers_of d0). m \<in> set (models_of p)")
    case False
    with assms(3) delete_model_eq [OF c, of m] have "st1 = st" by simp
    with assms(1) show ?thesis by simp
  next
    case True
    with assms(3) delete_model_eq [OF c, of m]
    have st1: "st1 = save_config (d0\<lparr>Providers := Some (map (remove_model m) (providers_of d0))\<rparr>) st"
      by simp
    have "list_all2 (\<lambda>p p'. set (models_of p) \<inter> set (used_models (router_of d)) \<subseteq> set (models_of p'))
            (providers_of d0) (map (remove_model m) (providers_of d0))"
      using assms(2) by (simp add: list_all2_map2 list_all2_same remove_model_keeps)
    with k have "list_all2 (keeps_used d) (providers_of d) (map (remove_model m) (providers_of d0))"
      by (rule list_all2_keeps_step)
    with st1 r0 show ?thesis
      by (auto simp: preserved_def save_config_def router_of_def)
  qed
qed

lemma add_models_preserved:
  "preserved d st \<Longrightarrow> add_models pn ms added st = (r, st1) \<Longrightarrow> preserved d st1"
proof (induction ms arbitrary: added st)
  case Nil
  then show ?case by simp
next
  case (Cons m ms)
  obtain r0 st0 where a: "add_model_to_provider pn m st = (r0, st0)"
    by (cases "add_model_to_provider pn m st")
  with Cons.prems(1) have p0: "preserved d st0" by (rule add_model_to_provider_preserved)
  show ?case
  proof (cases r0)
    case (Inr u)
    with a Cons.prems(2) have "add_models pn ms (added @ [(pn, m)]) st0 = (r, st1)" by simp
    with p0 show ?thesis by (rule Cons.IH)
  next
    case (Inl e)
    show ?thesis
    proof (cases "is_value_error e")
      case True
      with Inl a Cons.prems(2) have "add_models pn ms added st0 = (r, st1)" by simp
      with p0 show ?thesis by (rule Cons.IH)
    next
      case False
      with Inl a Cons.prems(2) p0 show ?thesis by simp
    qed
  qed
qed

lemma remove_models_preserved:
  "preserved d st \<Longrightarrow> set used = set (used_models (router_of d))
     \<Longrightarrow> remove_models pn used ms removed retained st = (r, st1) \<Longrightarrow> preserved d st1"
proof (induction ms arbitrary: removed retained st)
  case Nil
  then show ?case by simp
next
  case (Cons m ms)
  show ?case
  proof (cases "m \<in> set used")
    case True
    with Cons.prems(3) have "remove_models pn used ms removed (retained @ [(pn, m)]) st = (r, st1)"
      by simp
    with Cons.prems(1,2) show ?thesis by (rule Cons.IH)
  next
    case False
    obtain r0 st0 where a: "delete_model m st = (r0, st0)" by (cases "delete_model m st")
    from False Cons.prems(2) have "m \<notin> set (used_models (router_of d))" by simp
    with Cons.prems(1) a have p0: "preserved d st0" using delete_model_preserved by blast
    show ?thesis
    proof (cases r0)
      case (Inr u)
      with a False Cons.prems(3) have "remove_models pn used ms (removed @ [(pn, m)]) retained st0 = (r, st1)"
        by simp
      with p0 Cons.prems(2) show ?thesis by (rule Cons.IH)
    next
      case (Inl e)
      show ?thesis
      proof (cases "is_value_error e")
        case True
        with Inl a False Cons.prems(3) have "remove_models pn used ms removed retained st0 = (r, st1)"
          by simp
        with p0 Cons.prems(2) show ?thesis by (rule Cons.IH)
      next
        case False
        with Inl a \<open>m \<notin> set used\<close> Cons.prems(3) p0 show ?thesis by simp
      qed
    qed
  qed
qed

lemma remove_models_report:
  "remove_models pn used ms removed retained st = (Inr (removed', retained'), st1) \<Longrightarrow>
     set retained' = set retained \<union> Pair pn ` (set ms \<inter> set used)
   \<and> set removed' \<subseteq> set removed \<union> Pair pn ` (set ms - set used)"
proof (induction ms arbitrary: removed retained st)
  case Nil
  then show ?case by simp
next
  case (Cons m ms)
  show ?case
  proof (cases "m \<in> set used")
    case True
    with Cons.prems have "remove_models pn used ms removed (retained @ [(pn, m)]) st = (Inr (removed', retained'), st1)"
      by simp
    from Cons.IH [OF this] True show ?thesis by auto
  next
    case False
    obtain r0 st0 where a: "delete_model m st = (r0, st0)" by (cases "delete_model m st")
    show ?thesis
    proof (cases r0)
      case (Inr u)
      with a False Cons.prems have "remove_models pn used ms (removed @ [(pn, m)]) retained st0 = (Inr (removed', retained'), st1)"
        by simp
      from Cons.IH [OF this] False show ?thesis by auto
    next
      case (Inl e)
      with a False Cons.prems have "remove_models pn used ms removed retained st0 = (Inr (removed', retained'), st1)"
        by (simp split: if_splits)
      from Cons.IH [OF this] False show ?thesis by auto
    qed
  qed
qed

lemma preserved_router:
  "preserved d st \<Longrightarrow> get_router_config st = Inr (router_of d)"
  by (auto simp: preserved_def get_router_config_def load_config_def)

lemma update_provider_cases:
  assumes "update_provider fetch ord p rep st = (r, st1)"
    and "preserved d st"
  obtains
    (fetch_error) e where "fetch (api_base_url p) (api_key p) = Inl e" "r = Inl e" "st1 = st"
  | (nothing_fetched) catalog where "fetch (api_base_url p) (api_key p) = Inr catalog"
      "remdups catalog = []" "st1 = st"
      "r = Inr (rep\<lparr>retained_models :=
             retained_models rep @ map (Pair (name p)) (ord (remdups (models_of p)))\<rparr>)"
  | (add_error) catalog e sta where "fetch (api_base_url p) (api_key p) = Inr catalog"
      "remdups catalog \<noteq> []"
      "add_models (name p)
         (ord (filter (\<lambda>m. m \<notin> set (remdups (models_of p))) (remdups catalog)))
         (added_models rep) st = (Inl e, sta)" "r = Inl e" "st1 = sta"
  | (remove_error) catalog added sta e stb where "fetch (api_base_url p) (api_key p) = Inr catalog"
      "remdups catalog \<noteq> []"
      "add_models (name p)
         (ord (filter (\<lambda>m. m \<notin> set (remdups (models_of p))) (remdups catalog)))
         (added_models rep) st = (Inr added, sta)"
      "remove_models (name p) (used_models (router_of d))
         (ord (filter (\<lambda>m. m \<notin> set (remdups catalog)) (remdups (models_of p))))
         (removed_models rep) (retained_models rep) sta = (Inl e, stb)" "r = Inl e" "st1 = stb"
  | (finished) catalog added sta removed retained stb where
      "fetch (api_base_url p) (api_key p) = Inr catalog"
      "remdups catalog \<noteq> []"
      "add_models (name p)
         (ord (filter (\<lambda>m. m \<notin> set (remdups (models_of p))) (remdups catalog)))
         (added_models rep) st = (Inr added, sta)"
      "remove_models (name p) (used_models (router_of d))
         (ord (filter (\<lambda>m. m \<notin> set (remdups catalog)) (remdups (models_of p))))
         (removed_models rep) (retained_models rep) sta = (Inr (removed, retained), stb)"
      "r = Inr \<lparr>added_models = added, removed_models = removed,
                retained_models = retained @ map (Pair (name p))
                  (ord (filter (\<lambda>m. m \<in> set (remdups catalog)) (remdups (models_of p))))\<rparr>"
      "st1 = stb"
proof (cases "fetch (api_base_url p) (api_key p)")
  case (Inl e)
  with assms(1) show ?thesis by (intro fetch_error [of e]) (auto simp: update_provider_def)
next
  case (Inr catalog)
  show ?thesis
  proof (cases "remdups catalog = []")
    case True
    with Inr assms(1) show ?thesis
      by (intro nothing_fetched [of catalog]) (auto simp: update_provider_def Let_def)
  next
    case False
    obtain ra sta where a: "add_models (name p)
         (ord (filter (\<lambda>m. m \<notin> set (remdups (models_of p))) (remdups catalog)))
         (added_models rep) st = (ra, sta)"
      by (cases "add_models (name p)
         (ord (filter (\<lambda>m. m \<notin> set (remdups (models_of p))) (remdups catalog)))
         (added_models rep) st")
    show ?thesis
    proof (cases ra)
      case (Inl e)
      with Inr False a assms(1) show ?thesis
        by (intro add_error [of catalog e sta]) (auto simp: update_provider_def Let_def)
    next
      case ra: (Inr added)
      from assms(2) a have "preserved d sta" by (rule add_models_preserved)
      then have g: "get_router_config sta = Inr (router_of d)" by (rule preserved_router)
      obtain rb stb where b: "remove_models (name p) (used_models (router_of d))
         (ord (filter (\<lambda>m. m \<notin> set (remdups catalog)) (remdups (models_of p))))
         (removed_models rep) (retained_models rep) sta = (rb, stb)"
        by (cases "remove_models (name p) (used_models (router_of d))
         (ord (filter (\<lambda>m. m \<notin> set (remdups catalog)) (remdups (models_of p))))
         (removed_models rep) (retained_models rep) sta")
      show ?thesis
      proof (cases rb)
        case (Inl e)
        with Inr False a ra g b assms(1) show ?thesis
          by (intro remove_error [of catalog added sta e stb])
            (auto simp: update_provider_def Let_def)
      next
        case (Inr rr)
        obtain removed retained where rr: "rr = (removed, retained)" by (cases rr)
        with Inr \<open>fetch (api_base_url p) (api_key p) = Inr catalog\<close> False a ra g b assms(1)
        show ?thesis
          by (intro finished [of catalog added sta removed retained stb])
            (auto simp: update_provider_def Let_def)
      qed
    qed
  qed
qed

lemma update_provider_preserved:
  assumes "preserved d st" and "update_provider fetch ord p rep st = (r, st1)"
  shows "preserved d st1"
  using assms(2,1)
proof (cases rule: update_provider_cases)
  case (add_error catalog e sta)
  with assms(1) show ?thesis using add_models_preserved by blast
next
  case (remove_error catalog added sta e stb)
  from assms(1) remove_error(3) have "preserved d sta" by (rule add_models_preserved)
  from remove_models_preserved [OF this refl remove_error(4)] remove_error(6)
  show ?thesis by simp
next
  case (finished catalog added sta removed retained stb)
  from assms(1) finished(3) have "preserved d sta" by (rule add_models_preserved)
  from remove_models_preserved [OF this refl finished(4)] finished(6)
  show ?thesis by simp
qed (use assms(1) in simp_all)

lemma update_provider_report:
  assumes "preserved d st" and o: "\<And>xs. set (ord xs) = set xs"
    and u: "update_provider fetch ord p rep st = (Inr rep1, st1)"
  shows "set (retained_models rep) \<subseteq> set (retained_models rep1)"
    and "set (removed_models rep1)
           \<subseteq> set (removed_models rep) \<union> {(pn, m). m \<notin> set (used_models (router_of d))}"
    and "\<And>m catalog. m \<in> set (models_of p) \<Longrightarrow> m \<in> set (used_models (router_of d))
           \<Longrightarrow> fetch (api_base_url p) (api_key p) = Inr catalog \<Longrightarrow> m \<notin> set catalog
           \<Longrightarrow> (name p, m) \<in> set (retained_models rep1)"
proof -
  have "set (retained_models rep) \<subseteq> set (retained_models rep1)
      \<and> set (removed_models rep1)
           \<subseteq> set (removed_models rep) \<union> {(pn, m). m \<notin> set (used_models (router_of d))}
      \<and> (\<forall>m catalog. m \<in> set (models_of p) \<and> m \<in> set (used_models (router_of d))
           \<and> fetch (api_base_url p) (api_key p) = Inr catalog \<and> m \<notin> set catalog
           \<longrightarrow> (name p, m) \<in> set (retained_models rep1))"
    using u assms(1)
  proof (cases rule: update_provider_cases)
    case (nothing_fetched catalog)
    then show ?thesis by (auto simp: o)
  next
    case (finished catalog added sta removed retained stb)
    from remove_models_report [OF finished(4)]
    have 1: "set retained = set (retained_models rep) \<union> Pair (name p) `
               (set (ord (filter (\<lambda>m. m \<notin> set (remdups catalog)) (remdups (models_of p))))
                  \<inter> set (used_models (router_of d)))"
      and 2: "set removed \<subseteq> set (removed_models rep) \<union> Pair (name p) `
               (set (ord (filter (\<lambda>m. m \<notin> set (remdups catalog)) (remdups (models_of p))))
                  - set (used_models (router_of d)))"
      by simp_all
    from finished(5) have r1: "retained_models rep1 = retained @ map (Pair (name p))
                  (ord (filter (\<lambda>m. m \<in> set (remdups catalog)) (remdups (models_of p))))"
      and r2: "removed_models rep1 = removed" by auto
    show ?thesis
    proof (intro conjI allI impI)
      show "set (retained_models rep) \<subseteq> set (retained_models rep1)"
        using 1 r1 by auto
      show "set (removed_models rep1)
           \<subseteq> set (removed_models rep) \<union> {(pn, m). m \<notin> set (used_models (router_of d))}"
        using 2 r2 by auto
      fix m c
      assume "m \<in> set (models_of p) \<and> m \<in> set (used_models (router_of d))
           \<and> fetch (api_base_url p) (api_key p) = Inr c \<and> m \<notin> set c"
      with finished(1) have "m \<in> set (models_of p)" "m \<in> set (used_models (router_of d))"
        "m \<notin> set catalog" by auto
      then have "(name p, m) \<in> set retained" using 1 by (auto simp: o)
      then show "(name p, m) \<in> set (retained_models rep1)" using r1 by simp
    qed
  qed simp_all
  then show "set (retained_models rep) \<subseteq> set (retained_models rep1)"
    and "set (removed_models rep1)
           \<subseteq> set (removed_models rep) \<union> {(pn, m). m \<notin> set (used_models (router_of d))}"
    and "\<And>m catalog. m \<in> set (models_of p) \<Longrightarrow> m \<in> set (used_models (router_of d))
           \<Longrightarrow> fetch (api_base_url p) (api_key p) = Inr catalog \<Longrightarrow> m \<notin> set catalog
           \<Longrightarrow> (name p, m) \<in> set (retained_models rep1)"
    by blast+
qed

lemma update_providers_result:
  assumes "preserved d st" and o: "\<And>xs. set (ord xs) = set xs"
    and "update_providers fetch ord ps rep st = (r, st1)"
  shows "preserved d st1
     \<and> (\<forall>rep1. r = Inr rep1 \<longrightarrow>
          set (retained_models rep) \<subseteq> set (retained_models rep1)
        \<and> set (removed_models rep1)
             \<subseteq> set (removed_models rep) \<union> {(pn, m). m \<notin> set (used_models (router_of d))}
        \<and> (\<forall>p \<in> set ps. \<forall>m catalog.
              m \<in> set (models_of p) \<and> m \<in> set (used_models (router_of d))
              \<and> fetch (api_base_url p) (api_key p) = Inr catalog \<and> m \<notin> set catalog
              \<longrightarrow> (name p, m) \<in> set (retained_models rep1)))"
  using assms(1,3)
proof (induction ps arbitrary: rep st)
  case Nil
  then show ?case by auto
next
  case (Cons p ps)
  obtain r0 st0 where u: "update_provider fetch ord p rep st = (r0, st0)"
    by (cases "update_provider fetch ord p rep st")
  from Cons.prems(1) u have p0: "preserved d st0" by (rule update_provider_preserved)
  show ?case
  proof (cases r0)
    case (Inl e)
    with u Cons.prems(2) have "r = Inl e" and "st1 = st0" by simp_all
    with p0 show ?thesis by simp
  next
    case (Inr rep0)
    with u Cons.prems(2) have rest: "update_providers fetch ord ps rep0 st0 = (r, st1)" by simp
    from u Inr have u': "update_provider fetch ord p rep st = (Inr rep0, st0)" by simp
    note a = update_provider_report [OF Cons.prems(1) o u']
    note b = Cons.IH [OF p0 rest]
    show ?thesis
    proof (intro conjI allI impI ballI)
      show "preserved d st1" using b by simp
    next
      fix rep1 assume r: "r = Inr rep1"
      show "set (retained_models rep) \<subseteq> set (retained_models rep1)"
        using a(1) b r by blast
      show "set (removed_models rep1)
             \<subseteq> set (removed_models rep) \<union> {(pn, m). m \<notin> set (used_models (router_of d))}"
        using a(2) b r by blast
    next
      fix rep1 q m catalog
      assume r: "r = Inr rep1" and q: "q \<in> set (p # ps)"
        and h: "m \<in> set (models_of q) \<and> m \<in> set (used_models (router_of d))
              \<and> fetch (api_base_url q) (api_key q) = Inr catalog \<and> m \<notin> set catalog"
      show "(name q, m) \<in> set (retained_models rep1)"
      proof (cases "q = p")
        case True
        with h have "(name q, m) \<in> set (retained_models rep0)" using a(3) by blast
        with b r show ?thesis by blast
      next
        case False
        with q have "q \<in> set ps" by simp
        with b r h show ?thesis by blast
      qed
    qed
  qed
qed

text \<open>
  C1, as the claim states it, fails for an assignment without a comma. The router section
  has \<^verbatim>\<open>longContext = "m1"\<close>, the provider has \<^verbatim>\<open>m1\<close> and \<^verbatim>\<open>m2\<close>, the catalog has
  only \<^verbatim>\<open>m2\<close>: \<^verbatim>\<open>m1\<close> is reported as removed and is no longer in the provider's list.
\<close>

theorem bare_assignment_not_protected:
  "fst (update_models catalog_m2 id store_bare_assignment)
     = Inr \<lparr>added_models = [], removed_models = [(''p1'', ''m1'')],
            retained_models = [(''p1'', ''m2'')]\<rparr>
   \<and> get_providers (snd (update_models catalog_m2 id store_bare_assignment))
       = Inr [provider_p1\<lparr>models := Some [''m2'']\<rparr>]"
  by code_simp

lemma used_models_set:
  "set (used_models router_config)
     = {strip (snd (rsplit_last (CHR '','') s)) | k s.
          (k, JStr s) \<in> set router_config \<and> k \<noteq> ''longContextThreshold''
          \<and> CHR '','' \<in> set s}"
proof (induction router_config)
  case Nil
  then show ?case by (simp add: used_models_def)
next
  case (Cons kv rc)
  obtain k v where kv: "kv = (k, v)" by (cases kv)
  have "used_models (kv # rc)
          = (case v of
               JStr s \<Rightarrow> if k \<noteq> ''longContextThreshold'' \<and> CHR '','' \<in> set s
                         then [strip (snd (rsplit_last (CHR '','') s))] else []
             | _ \<Rightarrow> [])
            @ used_models rc"
    by (simp add: used_models_def kv)
  with Cons.IH kv show ?case
    by (cases v) (auto split: if_splits)
qed

text \<open>
  White space around the model name of an assignment is not part of the protected name,
  whichever white space of \<^verbatim>\<open>str.strip\<close> it is: here a space before and U+00A0 after.
\<close>

lemma used_models_strips_white_space:
  "used_models [(''default'', JStr (''p1, m1'' @ [CHR 0xC2, CHR 0xA0])),
                (''longContextThreshold'', JNum 1000), (''think'', JStr ''m7'')] = [''m1'']"
  by code_simp

text \<open>
  C1, amended. The protected names are \<open>used_models\<close> of the router section: for every
  key but \<^verbatim>\<open>longContextThreshold\<close> (\<^verbatim>\<open>default\<close>, \<^verbatim>\<open>background\<close>, \<^verbatim>\<open>think\<close>,
  \<^verbatim>\<open>longContext\<close>, \<^verbatim>\<open>webSearch\<close> or any other key) whose value is a string with a comma,
  the text after the last comma without its leading and trailing white space, and nothing
  else. Whatever the catalogs are, whatever order the sets are visited in, and whether the
  update runs to its end or stops on an error: every provider of the stored document still
  has, afterwards, each protected name it had before. And when the update returns its
  report, each protected name that a provider had and that is missing from that provider's
  catalog (also from an empty one) is reported as retained for that provider and is not
  reported as removed.
\<close>

theorem update_models_protects_used_models:
  "content st = Some d \<Longrightarrow> (\<forall>xs. set (ord xs) = set xs)
     \<Longrightarrow> update_models fetch ord st = (r, st') \<Longrightarrow>
     (\<exists>d'. content st' = Some d' \<and> get_providers st' = Inr (providers_of d')
        \<and> list_all2 (\<lambda>p p'. set (models_of p) \<inter> set (used_models (router_of d))
                                 \<subseteq> set (models_of p'))
             (providers_of d) (providers_of d'))
   \<and> (\<forall>rep. r = Inr rep \<longrightarrow>
        (\<forall>p \<in> set (providers_of d). \<forall>m \<in> set (models_of p). \<forall>catalog.
            m \<in> set (used_models (router_of d))
            \<and> fetch (api_base_url p) (api_key p) = Inr catalog \<and> m \<notin> set catalog
            \<longrightarrow> (name p, m) \<in> set (retained_models rep)
              \<and> (name p, m) \<notin> set (removed_models rep)))
   \<and> set (used_models (router_of d))
       = {strip (snd (rsplit_last (CHR '','') s)) | k s.
            (k, JStr s) \<in> set (router_of d) \<and> k \<noteq> ''longContextThreshold''
            \<and> CHR '','' \<in> set s}"
proof -
  assume c: "content st = Some d" and o: "\<forall>xs. set (ord xs) = set xs"
    and u: "update_models fetch ord st = (r, st')"
  from c have p: "preserved d st" by (rule preserved_refl)
  from o have o': "\<And>xs. set (ord xs) = set xs" by simp
  from c u have u': "update_providers fetch ord (providers_of d)
          \<lparr>added_models = [], removed_models = [], retained_models = []\<rparr> st = (r, st')"
    by (simp add: update_models_def get_providers_def load_config_def)
  note res = update_providers_result [OF p o' u']
  from res have "preserved d st'" by simp
  then have 1: "\<exists>d'. content st' = Some d' \<and> get_providers st' = Inr (providers_of d')
        \<and> list_all2 (\<lambda>p p'. set (models_of p) \<inter> set (used_models (router_of d))
                                 \<subseteq> set (models_of p'))
             (providers_of d) (providers_of d')"
    by (auto simp: preserved_def keeps_used_def [abs_def] get_providers_def load_config_def)
  have 2: "(name p, m) \<in> set (retained_models rep) \<and> (name p, m) \<notin> set (removed_models rep)"
    if "r = Inr rep" "p \<in> set (providers_of d)" "m \<in> set (models_of p)"
      "m \<in> set (used_models (router_of d))"
      "fetch (api_base_url p) (api_key p) = Inr catalog" "m \<notin> set catalog"
    for rep p m catalog
  proof
    from res that show "(name p, m) \<in> set (retained_models rep)" by blast
    from res that(1)
    have "set (removed_models rep) \<subseteq> {(pn, m). m \<notin> set (used_models (router_of d))}"
      by auto
    with that(4) show "(name p, m) \<notin> set (removed_models rep)" by auto
  qed
  show ?thesis
  proof (intro conjI)
    show "\<exists>d'. content st' = Some d' \<and> get_providers st' = Inr (providers_of d')
        \<and> list_all2 (\<lambda>p p'. set (models_of p) \<inter> set (used_models (router_of d))
                                 \<subseteq> set (models_of p'))
             (providers_of d) (providers_of d')"
      by (rule 1)
    show "\<forall>rep. r = Inr rep \<longrightarrow>
        (\<forall>p \<in> set (providers_of d). \<forall>m \<in> set (models_of p). \<forall>catalog.
            m \<in> set (used_models (router_of d))
            \<and> fetch (api_base_url p) (api_key p) = Inr catalog \<and> m \<notin> set catalog
            \<longrightarrow> (name p, m) \<in> set (retained_models rep)
              \<and> (name p, m) \<notin> set (removed_models rep))"
      using 2 by blast
    show "set (used_models (router_of d))
       = {strip (snd (rsplit_last (CHR '','') s)) | k s.
            (k, JStr s) \<in> set (router_of d) \<and> k \<noteq> ''longContextThreshold''
            \<and> CHR '','' \<in> set s}"
      by (rule used_models_set)
  qed
qed

text \<open>
  The catalog has only \<^verbatim>\<open>m3\<close>, so \<^verbatim>\<open>m1\<close> and \<^verbatim>\<open>m2\<close> are both missing from it.
  \<^verbatim>\<open>m2\<close> is protected by the \<^verbatim>\<open>default\<close> assignment and \<^verbatim>\<open>m1\<close> by \<^verbatim>\<open>longContext\<close>:
  both are retained, nothing is removed, \<^verbatim>\<open>m3\<close> is added, and the stored provider has
  all three.
\<close>

theorem update_models_protects_used_models_witness:
  "fst (update_models catalog_m3 id store_long_context)
     = Inr \<lparr>added_models = [(''p1'', ''m3'')], removed_models = [],
            retained_models = [(''p1'', ''m1''), (''p1'', ''m2'')]\<rparr>
   \<and> (''default'', JStr ''p1,m2'') \<in> set (router_of doc_long_context)
   \<and> ''m2'' \<in> set (used_models (router_of doc_long_context))
   \<and> (''p1'', ''m2'') \<in> set (retained_models
         \<lparr>added_models = [(''p1'', ''m3'')], removed_models = [],
          retained_models = [(''p1'', ''m1''), (''p1'', ''m2'')]\<rparr>)
   \<and> get_providers (snd (update_models catalog_m3 id store_long_context))
       = Inr [provider_p1\<lparr>models := Some [''m1'', ''m2'', ''m3'']\<rparr>]"
proof -
  let ?rep = "\<lparr>added_models = [(''p1'', ''m3'')], removed_models = [],
          retained_models = [(''p1'', ''m1''), (''p1'', ''m2'')]\<rparr>"
  have c: "content store_long_context = Some doc_long_context"
    by (simp add: store_long_context_def)
  have o: "\<forall>xs :: string list. set (id xs) = set xs" by simp
  have f: "fst (update_models catalog_m3 id store_long_context) = Inr ?rep"
    by code_simp
  then have u: "update_models catalog_m3 id store_long_context
                  = (Inr ?rep, snd (update_models catalog_m3 id store_long_context))"
    by (simp add: prod_eq_iff)
  have k: "(''default'', JStr ''p1,m2'') \<in> set (router_of doc_long_context)"
    by (simp add: router_of_def doc_long_context_def)
  have m: "''m2'' \<in> set (used_models (router_of doc_long_context))"
    by code_simp
  have p: "provider_p1 \<in> set (providers_of doc_long_context)"
    by (simp add: doc_long_context_def providers_of_def)
  have q: "''m2'' \<in> set (models_of provider_p1)"
    by (simp add: provider_p1_def models_of_def)
  have g: "catalog_m3 (api_base_url provider_p1) (api_key provider_p1) = Inr [''m3'']"
    by (simp add: catalog_m3_def)
  have b: "get_providers (snd (update_models catalog_m3 id store_long_context))
       = Inr [provider_p1\<lparr>models := Some [''m1'', ''m2'', ''m3'']\<rparr>]"
    by code_simp
  from update_models_protects_used_models [OF c o u] p q m g
  have "(name provider_p1, ''m2'') \<in> set (retained_models ?rep)" by fastforce
  then have "(''p1'', ''m2'') \<in> set (retained_models ?rep)" by (simp add: provider_p1_def)
  with f k m b show ?thesis by blast
qed

end
